theory Spec2Isabelle
  imports Complex_Main "HOL-Library.Word"
begin

section \<open>NetEnforcer: data model\<close>

text \<open>
  The enforcer (src/NetEnforcer/NetEnforcer.cpp) keeps a table of clients keyed by
  (destination, source) address and drives the kernel's traffic control through
  \<^verbatim>\<open>tc\<close> commands. \<^verbatim>\<open>unsigned int\<close> is a 32-bit word, \<^verbatim>\<open>uint64_t\<close> and
  \<^verbatim>\<open>unsigned long\<close> (LP64 Linux) are 64-bit words; their arithmetic wraps around.
\<close>

type_synonym u32 = "32 word"
type_synonym u64 = "64 word"
type_synonym addr = "64 word"

text \<open>
  A C++ \<^verbatim>\<open>double\<close>: the IEEE 754 special values are kept apart, since division by
  zero produces them; the finite values are idealised as reals (no rounding, and the
  two zeros are not told apart).
\<close>

datatype double = Finite real | PInf | NInf | NaN

definition dsign :: "real \<Rightarrow> double \<Rightarrow> double" where
  "dsign r d = (case d of PInf \<Rightarrow> (if r < 0 then NInf else PInf)
                        | NInf \<Rightarrow> (if r < 0 then PInf else NInf)
                        | x \<Rightarrow> x)"

fun dadd :: "double \<Rightarrow> double \<Rightarrow> double" where
  "dadd (Finite a) (Finite b) = Finite (a + b)"
| "dadd NaN y = NaN"
| "dadd x NaN = NaN"
| "dadd PInf NInf = NaN"
| "dadd NInf PInf = NaN"
| "dadd PInf y = PInf"
| "dadd NInf y = NInf"
| "dadd x PInf = PInf"
| "dadd x NInf = NInf"

fun dmul :: "double \<Rightarrow> double \<Rightarrow> double" where
  "dmul (Finite a) (Finite b) = Finite (a * b)"
| "dmul NaN y = NaN"
| "dmul x NaN = NaN"
| "dmul (Finite a) y = (if a = 0 then NaN else dsign a y)"
| "dmul x (Finite b) = (if b = 0 then NaN else dsign b x)"
| "dmul PInf y = y"
| "dmul NInf y = dsign (- 1) y"

fun ddiv :: "double \<Rightarrow> double \<Rightarrow> double" where
  "ddiv (Finite a) (Finite b) =
     (if b = 0 then (if a = 0 then NaN else if 0 < a then PInf else NInf)
      else Finite (a / b))"
| "ddiv NaN y = NaN"
| "ddiv x NaN = NaN"
| "ddiv (Finite a) y = Finite 0"
| "ddiv x (Finite b) = dsign b x"
| "ddiv x y = NaN"

text \<open>\<^verbatim>\<open>a > b\<close> on doubles: false as soon as one side is NaN.\<close>

fun dgt :: "double \<Rightarrow> double \<Rightarrow> bool" where
  "dgt (Finite a) (Finite b) = (b < a)"
| "dgt NaN y = False"
| "dgt x NaN = False"
| "dgt PInf y = (y \<noteq> PInf)"
| "dgt x NInf = (x \<noteq> NInf)"
| "dgt x y = False"

text \<open>Integer to double conversions; exact for 32-bit values.\<close>

definition double_of_u32 :: "u32 \<Rightarrow> double" where
  "double_of_u32 w = Finite (real (unat w))"

definition double_of_u64 :: "u64 \<Rightarrow> double" where
  "double_of_u64 w = Finite (real (unat w))"

text \<open>
  What the source takes from outside this file: \<^verbatim>\<open>ConvertTimeToSeconds\<close> of
  common/time.hpp, and the conversion of a \<^verbatim>\<open>double\<close> to \<^verbatim>\<open>unsigned int\<close> done by
  the initialisations \<^verbatim>\<open>unsigned int rate = rateLimitRates[..]\<close>. Both are parameters.
\<close>

record platform =
  ConvertTimeToSeconds :: "u64 \<Rightarrow> double"
  uint_of_double :: "double \<Rightarrow> u32"

text \<open>
  What one call reads from its environment: the clock (\<^verbatim>\<open>GetTime()\<close>) and the kernel's
  byte counter of a class (\<^verbatim>\<open>getSentBytes(parentHandle, minor)\<close>, which parses the output
  of \<^verbatim>\<open>tc -s class show\<close>).
\<close>

record readings =
  GetTime :: u64
  getSentBytes :: "u32 \<Rightarrow> u32 \<Rightarrow> u64"

record Client =
  id_c :: u32
  priority :: u32
  rateLimitLength :: u32
  rate :: double
  lastSentBytesTime :: u64
  maxSentBytes :: double
  prevSentBytes :: u64
  sentBytes :: u64

text \<open>The globals fixed at start-up, and the globals that change.\<close>

record config =
  g_maxRate :: u32
  g_numPriorities :: u32
  g_numLevels :: u32

record state =
  g_clients :: "addr \<times> addr \<Rightarrow> Client option"
  g_nextId :: u32

definition default_config :: config where
  "default_config = \<lparr>g_maxRate = 125000000, g_numPriorities = 7, g_numLevels = 5\<rparr>"

definition init_state :: state where
  "init_state = \<lparr>g_clients = Map.empty, g_nextId = 0\<rparr>"

text \<open>The value-initialised \<^verbatim>\<open>Client\<close> that \<^verbatim>\<open>std::map::operator[]\<close> inserts for a missing key.\<close>

definition zero_Client :: Client where
  "zero_Client = \<lparr>id_c = 0, priority = 0, rateLimitLength = 0, rate = Finite 0,
     lastSentBytesTime = 0, maxSentBytes = Finite 0, prevSentBytes = 0, sentBytes = 0\<rparr>"

section \<open>Handle allocator\<close>

definition rootHTBHandle :: u32 where
  "rootHTBHandle = 1"

definition rootHTBMinor :: "u32 \<Rightarrow> u32" where
  "rootHTBMinor pri = pri + 1"

definition rootHTBMinorHelper :: "config \<Rightarrow> u32 \<Rightarrow> u32" where
  "rootHTBMinorHelper cfg pri = pri + rootHTBMinor (g_numPriorities cfg)"

definition rootHTBMinorDefault :: "config \<Rightarrow> u32" where
  "rootHTBMinorDefault cfg = rootHTBMinorHelper cfg (g_numPriorities cfg)"

definition DSMARKHandle :: "config \<Rightarrow> u32 \<Rightarrow> u32" where
  "DSMARKHandle cfg pri = pri + rootHTBMinorDefault cfg + 1"

definition HTBBaseHandle :: "config \<Rightarrow> u32 \<Rightarrow> u32" where
  "HTBBaseHandle cfg pri = pri + DSMARKHandle cfg (g_numPriorities cfg)"

definition HTBHandle :: "config \<Rightarrow> u32 \<Rightarrow> u32 \<Rightarrow> u32 \<Rightarrow> u32" where
  "HTBHandle cfg ident pri level =
     (let offset = (ident * g_numPriorities cfg * g_numLevels cfg) + (pri * g_numLevels cfg) + level
      in offset + HTBBaseHandle cfg (g_numPriorities cfg))"

definition HTBMinor :: "u32 \<Rightarrow> u32 \<Rightarrow> u32" where
  "HTBMinor ident level = (if level = 0 then ident + 2 else 1)"

text \<open>
  The handle of a client's deepest level still fits 32 bits: with this, none of the sums
  and products of the allocator wraps around for the client's id.
\<close>

definition handles_fit :: "config \<Rightarrow> u32 \<Rightarrow> bool" where
  "handles_fit cfg ident \<longleftrightarrow>
     (unat ident + 1) * unat (g_numPriorities cfg) * unat (g_numLevels cfg)
       + 4 * unat (g_numPriorities cfg) + 2 \<le> 2 ^ 32"

section \<open>TC driver\<close>

text \<open>
  Each driver function formats one \<^verbatim>\<open>tc\<close> command for the device and runs it. The
  model records the command with the numbers that are printed into it, in the order of
  the format string (the device name is the same everywhere and is left out):
  \<^item> \<open>QdiscDel ph pm ch\<close>: \<^verbatim>\<open>tc qdisc del dev D parent ph:pm handle ch:\<close>
  \<^item> \<open>ClassDel ph m\<close>: \<^verbatim>\<open>tc class del dev D classid ph:m\<close>
  \<^item> \<open>FilterDel ph prio\<close>: \<^verbatim>\<open>tc filter del dev D parent ph: prio prio u32\<close>
  \<^item> \<open>QdiscAddHTB ph pm ch\<close>: \<^verbatim>\<open>tc qdisc add dev D parent ph:pm handle ch: htb default 1\<close>
  \<^item> \<open>ClassReplaceHTB ph m rate ceil burst cburst\<close>:
    \<^verbatim>\<open>tc class replace dev D parent ph: classid ph:m htb rate .. ceil .. [burst ..] [cburst ..]\<close>
  \<^item> \<open>FilterAdd ph prio dst src m\<close>:
    \<^verbatim>\<open>tc filter add dev D parent ph: protocol ip prio prio u32 match ip dst .. match ip src .. flowid ph:m\<close>
\<close>

datatype tc_cmd =
    QdiscDel u32 u32 u32
  | ClassDel u32 u32
  | FilterDel u32 u32
  | QdiscAddHTB u32 u32 u32
  | ClassReplaceHTB u32 u32 u32 u32 u32 u32
  | FilterAdd u32 u32 addr addr u32

definition removeQdisc :: "u32 \<Rightarrow> u32 \<Rightarrow> u32 \<Rightarrow> tc_cmd" where
  "removeQdisc parentHandle parentMinor childHandle = QdiscDel parentHandle parentMinor childHandle"

definition removeClass :: "u32 \<Rightarrow> u32 \<Rightarrow> tc_cmd" where
  "removeClass parentHandle minor = ClassDel parentHandle minor"

definition removeFilter :: "u32 \<Rightarrow> u32 \<Rightarrow> tc_cmd" where
  "removeFilter parentHandle ident = FilterDel parentHandle (ident + 1)"

definition addHTBQdisc :: "u32 \<Rightarrow> u32 \<Rightarrow> u32 \<Rightarrow> tc_cmd" where
  "addHTBQdisc parentHandle parentMinor childHandle = QdiscAddHTB parentHandle parentMinor childHandle"

definition addHTBClass :: "u32 \<Rightarrow> u32 \<Rightarrow> u32 \<Rightarrow> u32 \<Rightarrow> u32 \<Rightarrow> u32 \<Rightarrow> tc_cmd" where
  "addHTBClass parentHandle minor rt ceil burst cburst =
     ClassReplaceHTB parentHandle minor rt ceil burst cburst"

definition addFilter :: "u32 \<Rightarrow> u32 \<Rightarrow> addr \<Rightarrow> addr \<Rightarrow> u32 \<Rightarrow> tc_cmd" where
  "addFilter parentHandle ident s_dstAddr s_srcAddr minor =
     FilterAdd parentHandle (ident + 1) s_dstAddr s_srcAddr minor"

section \<open>Occupancy accounting\<close>

definition updateSentBytes :: "platform \<Rightarrow> config \<Rightarrow> readings \<Rightarrow> Client \<Rightarrow> Client" where
  "updateSentBytes pf cfg rd c =
     (if 0 < rateLimitLength c then
        (let currSentBytes = getSentBytes rd (HTBBaseHandle cfg (priority c)) (HTBMinor (id_c c) 0);
             c = c\<lparr>sentBytes := sentBytes c + (currSentBytes - prevSentBytes c)\<rparr>;
             c = c\<lparr>prevSentBytes := currSentBytes\<rparr>;
             now = GetTime rd;
             c = c\<lparr>maxSentBytes :=
                   dadd (maxSentBytes c)
                        (dmul (rate c) (ConvertTimeToSeconds pf (now - lastSentBytesTime c)))\<rparr>
         in c\<lparr>lastSentBytesTime := now\<rparr>)
      else c)"

section \<open>Reconciliation engine\<close>

text \<open>
  The \<^verbatim>\<open>while ((level * 2) < rateLimitLength)\<close> loop of \<^verbatim>\<open>updateClient\<close>. Its variables
  are \<open>level\<close>, \<open>parentHandle\<close>, \<open>minor\<close> and \<open>childHandle\<close>; \<open>cmds\<close> collects the
  commands run so far. \<open>level * 2\<close> is computed in 32 bits, so the loop need not end for
  every \<open>len\<close>: not returning is \<open>None\<close>. The arrays \<^verbatim>\<open>double* rateLimitRates\<close> and
  \<^verbatim>\<open>double* rateLimitBursts\<close> are pointers without a length of their own: each is the
  function from an index to the element stored there.
\<close>

partial_function (option) chainWalk ::
  "platform \<Rightarrow> config \<Rightarrow> u32 \<Rightarrow> u32 \<Rightarrow> u32 \<Rightarrow> (u32 \<Rightarrow> double) \<Rightarrow> (u32 \<Rightarrow> double) \<Rightarrow> u32 \<Rightarrow> u32 \<Rightarrow>
   u32 \<Rightarrow> u32 \<Rightarrow> u32 \<Rightarrow> u32 \<Rightarrow> tc_cmd list \<Rightarrow> (u32 \<times> u32 \<times> u32 \<times> u32 \<times> tc_cmd list) option"
where
  "chainWalk pf cfg ident pri len rateLimitRates rateLimitBursts oldPriority oldRateLimitLength
       level parentHandle minor childHandle cmds =
     (if level * 2 < len then
        (let cmds1 = (if 0 < level \<and> (oldRateLimitLength \<le> level * 2 \<or> oldPriority \<noteq> pri)
                      then cmds @ [addHTBQdisc parentHandle minor childHandle] else cmds);
             parentHandle1 = (if 0 < level then childHandle else parentHandle);
             minor1 = (if 0 < level then HTBMinor ident level else minor);
             childHandle1 = (if 0 < level then HTBHandle cfg ident pri level else childHandle);
             rt = uint_of_double pf (rateLimitRates (level * 2));
             burst = uint_of_double pf (rateLimitBursts (level * 2));
             ceil = (if level * 2 + 1 < len
                     then uint_of_double pf (rateLimitRates (level * 2 + 1)) else rt);
             cburst = (if level * 2 + 1 < len
                       then uint_of_double pf (rateLimitBursts (level * 2 + 1)) else burst)
         in chainWalk pf cfg ident pri len rateLimitRates rateLimitBursts oldPriority oldRateLimitLength
              (level + 1) parentHandle1 minor1 childHandle1
              (cmds1 @ [addHTBClass parentHandle1 minor1 rt ceil burst cburst]))
      else Some (level, parentHandle, minor, childHandle, cmds))"

text \<open>
  \<^verbatim>\<open>updateClient\<close>: the new table and id counter, and the commands run, in order.
  \<^verbatim>\<open>Client& c = g_clients[addr]\<close> is a reference into the table, so every assignment to
  \<open>c\<close> is an update of the entry; the entry is written back at the end, or erased.
\<close>

definition updateClient ::
  "platform \<Rightarrow> config \<Rightarrow> readings \<Rightarrow> addr \<Rightarrow> addr \<Rightarrow> u32 \<Rightarrow> u32 \<Rightarrow> (u32 \<Rightarrow> double) \<Rightarrow> (u32 \<Rightarrow> double) \<Rightarrow>
   state \<Rightarrow> (state \<times> tc_cmd list) option"
where
  "updateClient pf cfg rd s_dstAddr s_srcAddr pri len rateLimitRates rateLimitBursts s =
     (let addr = (s_dstAddr, s_srcAddr);
          newClient = (g_clients s addr = None)
      in if newClient \<and> pri = g_numPriorities cfg then Some (s, [])
         else
          (let c = (case g_clients s addr of None \<Rightarrow> zero_Client | Some c0 \<Rightarrow> c0);
               c = (if newClient
                    then c\<lparr>id_c := g_nextId s, lastSentBytesTime := GetTime rd,
                           maxSentBytes := Finite 0, prevSentBytes := 0, sentBytes := 0\<rparr>
                    else updateSentBytes pf cfg rd c);
               nextId = (if newClient then g_nextId s + 1 else g_nextId s);
               oldPriority = (if newClient then g_numPriorities cfg else priority c);
               oldRateLimitLength = (if newClient then 0 else rateLimitLength c);
               c = c\<lparr>priority := pri, rateLimitLength := len,
                      rate := (if 0 < len then rateLimitRates 0 else double_of_u32 (g_maxRate cfg))\<rparr>;
               ident = id_c c
           in case chainWalk pf cfg ident pri len rateLimitRates rateLimitBursts
                     oldPriority oldRateLimitLength
                     0 (HTBBaseHandle cfg pri) (HTBMinor ident 0) (HTBHandle cfg ident pri 0) []
              of None \<Rightarrow> None
               | Some (level, parentHandle, minor, childHandle, cmds) \<Rightarrow>
                  (let cmds = (if 0 < len \<and> (oldRateLimitLength = 0 \<or> oldPriority \<noteq> pri)
                               then cmds @ [addFilter (HTBBaseHandle cfg pri) ident s_dstAddr s_srcAddr
                                              (HTBMinor ident 0)]
                               else cmds);
                       c = (if oldPriority \<noteq> pri then c\<lparr>prevSentBytes := 0\<rparr> else c);
                       cmds = (if oldPriority \<noteq> pri \<and> oldPriority < g_numPriorities cfg
                               then cmds @ [removeFilter rootHTBHandle ident] else cmds);
                       cmds = (if oldPriority \<noteq> pri \<and> pri < g_numPriorities cfg
                               then cmds @ [addFilter rootHTBHandle ident s_dstAddr s_srcAddr
                                              (rootHTBMinor pri)]
                               else cmds);
                       cmds = (if 2 < oldRateLimitLength
                               then (if oldPriority \<noteq> pri
                                     then cmds @ [removeQdisc (HTBBaseHandle cfg oldPriority) (HTBMinor ident 0)
                                                    (HTBHandle cfg ident oldPriority 0)]
                                     else if level * 2 < oldRateLimitLength
                                     then cmds @ [removeQdisc parentHandle minor childHandle]
                                     else cmds)
                               else cmds);
                       cmds = (if 0 < oldRateLimitLength \<and> (len = 0 \<or> oldPriority \<noteq> pri)
                               then cmds @ [removeFilter (HTBBaseHandle cfg oldPriority) ident,
                                            removeClass (HTBBaseHandle cfg oldPriority) (HTBMinor ident 0)]
                               else cmds)
                   in Some (\<lparr>g_clients = (if pri = g_numPriorities cfg
                                           then (g_clients s)(addr := None)
                                           else (g_clients s)(addr \<mapsto> c)),
                             g_nextId = nextId\<rparr>, cmds))))"

text \<open>
  \<^verbatim>\<open>getOccupancy\<close>: the occupancy returned and the new table. \<^verbatim>\<open>g_clients[addr]\<close>
  inserts a value-initialised entry when the key is missing.
\<close>

definition getOccupancy ::
  "platform \<Rightarrow> config \<Rightarrow> readings \<Rightarrow> addr \<Rightarrow> addr \<Rightarrow> state \<Rightarrow> double \<times> state"
where
  "getOccupancy pf cfg rd s_dstAddr s_srcAddr s =
     (let occupancy = Finite 0;
          addr = (s_dstAddr, s_srcAddr);
          c = (case g_clients s addr of None \<Rightarrow> zero_Client | Some c0 \<Rightarrow> c0)
      in if priority c \<noteq> 0 then
           (let c = updateSentBytes pf cfg rd c;
                occupancy = ddiv (double_of_u64 (sentBytes c)) (maxSentBytes c);
                occupancy = (if dgt occupancy (Finite 1) then Finite 1 else occupancy);
                c = c\<lparr>sentBytes := 0\<rparr>;
                c = c\<lparr>maxSentBytes := Finite 0\<rparr>
            in (occupancy, s\<lparr>g_clients := (g_clients s)(addr \<mapsto> c)\<rparr>))
         else (occupancy, s\<lparr>g_clients := (g_clients s)(addr \<mapsto> c)\<rparr>))"

section \<open>RPC surface\<close>

text \<open>
  The argument structures that rpcgen derives from prot/net_prot.x, with the fields the
  handlers read. A variable-length array is a length and a pointer. Each item of a batch
  is paired with what the clock and the kernel counters return while it is processed.
\<close>

record NetClient =
  s_dstAddr :: addr
  s_srcAddr :: addr

record NetClientUpdate =
  client :: NetClient
  priority_u :: u32
  rateLimitRates_len :: u32
  rateLimitRates_val :: "u32 \<Rightarrow> double"
  rateLimitBursts_len :: u32
  rateLimitBursts_val :: "u32 \<Rightarrow> double"

text \<open>The \<^verbatim>\<open>NULL\<close> array pointers of the removal call; its length is 0, so nothing is read.\<close>

definition NULL_array :: "u32 \<Rightarrow> double" where
  "NULL_array = (\<lambda>i. NaN)"

fun net_enforcer_update_clients_svc ::
  "platform \<Rightarrow> config \<Rightarrow> (readings \<times> NetClientUpdate) list \<Rightarrow> state \<Rightarrow> (state \<times> tc_cmd list) option"
where
  "net_enforcer_update_clients_svc pf cfg [] s = Some (s, [])"
| "net_enforcer_update_clients_svc pf cfg ((rd, clientUpdate) # argp) s =
     (let pri = priority_u clientUpdate;
          len = rateLimitRates_len clientUpdate
      in if g_numPriorities cfg \<le> pri then net_enforcer_update_clients_svc pf cfg argp s
         else if (g_numLevels cfg + 1) * 2 < len then net_enforcer_update_clients_svc pf cfg argp s
         else
          (case updateClient pf cfg rd (s_dstAddr (client clientUpdate)) (s_srcAddr (client clientUpdate))
                  pri len (rateLimitRates_val clientUpdate) (rateLimitBursts_val clientUpdate) s
           of None \<Rightarrow> None
            | Some (s1, cmds1) \<Rightarrow>
               (case net_enforcer_update_clients_svc pf cfg argp s1
                of None \<Rightarrow> None
                 | Some (s2, cmds2) \<Rightarrow> Some (s2, cmds1 @ cmds2))))"

fun net_enforcer_remove_clients_svc ::
  "platform \<Rightarrow> config \<Rightarrow> (readings \<times> NetClient) list \<Rightarrow> state \<Rightarrow> (state \<times> tc_cmd list) option"
where
  "net_enforcer_remove_clients_svc pf cfg [] s = Some (s, [])"
| "net_enforcer_remove_clients_svc pf cfg ((rd, cl) # argp) s =
     (case updateClient pf cfg rd (s_dstAddr cl) (s_srcAddr cl) (g_numPriorities cfg) 0
             NULL_array NULL_array s
      of None \<Rightarrow> None
       | Some (s1, cmds1) \<Rightarrow>
          (case net_enforcer_remove_clients_svc pf cfg argp s1
           of None \<Rightarrow> None
            | Some (s2, cmds2) \<Rightarrow> Some (s2, cmds1 @ cmds2)))"

definition net_enforcer_get_occupancy_svc ::
  "platform \<Rightarrow> config \<Rightarrow> readings \<Rightarrow> NetClient \<Rightarrow> state \<Rightarrow> double \<times> state"
where
  "net_enforcer_get_occupancy_svc pf cfg rd argp s =
     getOccupancy pf cfg rd (s_dstAddr argp) (s_srcAddr argp) s"

text \<open>The states the process can be in between two requests, starting from the empty table.\<close>

inductive reachable :: "platform \<Rightarrow> config \<Rightarrow> state \<Rightarrow> bool" for pf cfg where
  reach_init: "reachable pf cfg init_state"
| reach_update:
    "reachable pf cfg s \<Longrightarrow> net_enforcer_update_clients_svc pf cfg upds s = Some (s1, cmds)
     \<Longrightarrow> reachable pf cfg s1"
| reach_remove:
    "reachable pf cfg s \<Longrightarrow> net_enforcer_remove_clients_svc pf cfg rems s = Some (s1, cmds)
     \<Longrightarrow> reachable pf cfg s1"
| reach_occupancy:
    "reachable pf cfg s \<Longrightarrow> net_enforcer_get_occupancy_svc pf cfg rd arg s = (occ, s1)
     \<Longrightarrow> reachable pf cfg s1"

section \<open>The commands of one call, level by level\<close>

text \<open>
  The following describe what \<open>updateClient\<close> does in the words of the specification;
  the lemmas \<open>updateClient_new\<close> and \<open>updateClient_existing\<close> below prove that the
  code does so. \<open>walk_parent l\<close> is the qdisc that holds the class of level \<open>l\<close>: the
  per-priority base qdisc for level 0, the client's qdisc of the previous level otherwise.
  \<open>level_class l\<close> is the class of level \<open>l\<close>, \<open>level_qdisc l\<close> the qdisc added below
  the class of level \<open>l - 1\<close> when the old chain did not reach level \<open>l\<close> or the
  priority changed. \<open>num_levels len\<close> is the number of levels of a chain of \<open>len\<close> values,
  \<open>tail_cmds\<close> the commands after the walk.
\<close>

definition walk_parent :: "config \<Rightarrow> u32 \<Rightarrow> u32 \<Rightarrow> nat \<Rightarrow> u32" where
  "walk_parent cfg ident pri l =
     (if l = 0 then HTBBaseHandle cfg pri else HTBHandle cfg ident pri (of_nat (l - 1)))"

definition level_class ::
  "platform \<Rightarrow> config \<Rightarrow> u32 \<Rightarrow> u32 \<Rightarrow> u32 \<Rightarrow> (u32 \<Rightarrow> double) \<Rightarrow> (u32 \<Rightarrow> double) \<Rightarrow> nat \<Rightarrow> tc_cmd" where
  "level_class pf cfg ident pri len rates bursts l =
     ClassReplaceHTB (walk_parent cfg ident pri l) (if l = 0 then ident + 2 else 1)
       (uint_of_double pf (rates (of_nat (2 * l))))
       (if 2 * l + 1 < unat len then uint_of_double pf (rates (of_nat (2 * l + 1)))
        else uint_of_double pf (rates (of_nat (2 * l))))
       (uint_of_double pf (bursts (of_nat (2 * l))))
       (if 2 * l + 1 < unat len then uint_of_double pf (bursts (of_nat (2 * l + 1)))
        else uint_of_double pf (bursts (of_nat (2 * l))))"

definition level_qdisc :: "config \<Rightarrow> u32 \<Rightarrow> u32 \<Rightarrow> u32 \<Rightarrow> u32 \<Rightarrow> nat \<Rightarrow> tc_cmd list" where
  "level_qdisc cfg ident pri oldPriority oldRateLimitLength l =
     (if 0 < l \<and> (unat oldRateLimitLength \<le> 2 * l \<or> oldPriority \<noteq> pri)
      then [addHTBQdisc (walk_parent cfg ident pri (l - 1)) (HTBMinor ident (of_nat (l - 1)))
              (walk_parent cfg ident pri l)]
      else [])"

definition level_cmds ::
  "platform \<Rightarrow> config \<Rightarrow> u32 \<Rightarrow> u32 \<Rightarrow> u32 \<Rightarrow> (u32 \<Rightarrow> double) \<Rightarrow> (u32 \<Rightarrow> double) \<Rightarrow> u32 \<Rightarrow> u32 \<Rightarrow> nat
   \<Rightarrow> tc_cmd list" where
  "level_cmds pf cfg ident pri len rates bursts oldPriority oldRateLimitLength l =
     level_qdisc cfg ident pri oldPriority oldRateLimitLength l
       @ [level_class pf cfg ident pri len rates bursts l]"

definition num_levels :: "u32 \<Rightarrow> nat" where
  "num_levels len = (unat len + 1) div 2"

definition tail_cmds :: "config \<Rightarrow> addr \<Rightarrow> addr \<Rightarrow> u32 \<Rightarrow> u32 \<Rightarrow> u32 \<Rightarrow> u32 \<Rightarrow> u32 \<Rightarrow> tc_cmd list" where
  "tail_cmds cfg dst src ident pri len oldPriority oldRateLimitLength =
     (if 0 < len \<and> (oldRateLimitLength = 0 \<or> oldPriority \<noteq> pri)
      then [addFilter (HTBBaseHandle cfg pri) ident dst src (HTBMinor ident 0)] else [])
     @ (if oldPriority \<noteq> pri \<and> oldPriority < g_numPriorities cfg
        then [removeFilter rootHTBHandle ident] else [])
     @ (if oldPriority \<noteq> pri \<and> pri < g_numPriorities cfg
        then [addFilter rootHTBHandle ident dst src (rootHTBMinor pri)] else [])
     @ (if 2 < oldRateLimitLength
        then (if oldPriority \<noteq> pri
              then [removeQdisc (HTBBaseHandle cfg oldPriority) (HTBMinor ident 0)
                      (HTBHandle cfg ident oldPriority 0)]
              else if 2 * num_levels len < unat oldRateLimitLength
              then [removeQdisc (walk_parent cfg ident pri (num_levels len - 1))
                      (HTBMinor ident (of_nat (num_levels len - 1)))
                      (HTBHandle cfg ident pri (of_nat (num_levels len - 1)))]
              else [])
        else [])
     @ (if 0 < oldRateLimitLength \<and> (len = 0 \<or> oldPriority \<noteq> pri)
        then [removeFilter (HTBBaseHandle cfg oldPriority) ident,
              removeClass (HTBBaseHandle cfg oldPriority) (HTBMinor ident 0)]
        else [])"

fun is_class_cmd :: "tc_cmd \<Rightarrow> bool" where
  "is_class_cmd (ClassReplaceHTB ph m rt cl b cb) = True"
| "is_class_cmd c = False"

fun root_filter_cmd :: "tc_cmd \<Rightarrow> bool" where
  "root_filter_cmd (FilterDel ph prio) = (ph = rootHTBHandle)"
| "root_filter_cmd (FilterAdd ph prio dst src m) = (ph = rootHTBHandle)"
| "root_filter_cmd c = False"

definition client_ident :: "state \<Rightarrow> addr \<Rightarrow> addr \<Rightarrow> u32" where
  "client_ident s dst src = (case g_clients s (dst, src) of None \<Rightarrow> g_nextId s | Some c \<Rightarrow> id_c c)"

section \<open>Invariant of the client table\<close>

text \<open>Every stored chain length is within the bound that the update handler checks.\<close>

definition lengths_bounded :: "config \<Rightarrow> state \<Rightarrow> bool" where
  "lengths_bounded cfg s \<longleftrightarrow>
     (\<forall>k c. g_clients s k = Some c \<longrightarrow> rateLimitLength c \<le> (g_numLevels cfg + 1) * 2)"

section \<open>Example inputs\<close>

text \<open>A platform, readings and a request on which the theorems below are instantiated.\<close>

definition example_platform :: platform where
  "example_platform = \<lparr>ConvertTimeToSeconds = (\<lambda>t. Finite (real (unat t) / 1000000000)),
     uint_of_double = (\<lambda>d. case d of Finite r \<Rightarrow> word_of_int \<lfloor>r\<rfloor> | _ \<Rightarrow> 0)\<rparr>"

definition example_readings :: readings where
  "example_readings = \<lparr>GetTime = 1000, getSentBytes = (\<lambda>h m. 0)\<rparr>"

definition example_rates :: "u32 \<Rightarrow> double" where
  "example_rates i = Finite (1000 + real (unat i))"

definition example_bursts :: "u32 \<Rightarrow> double" where
  "example_bursts i = Finite (100 + real (unat i))"

definition example_update :: "u32 \<Rightarrow> u32 \<Rightarrow> NetClientUpdate" where
  "example_update pri len = \<lparr>client = \<lparr>s_dstAddr = 1, s_srcAddr = 2\<rparr>, priority_u = pri,
     rateLimitRates_len = len, rateLimitRates_val = example_rates,
     rateLimitBursts_len = len, rateLimitBursts_val = example_bursts\<rparr>"

definition example_client :: Client where
  "example_client = \<lparr>id_c = 0, priority = 2, rateLimitLength = 4, rate = Finite 1000,
     lastSentBytesTime = 1000, maxSentBytes = Finite 0, prevSentBytes = 0, sentBytes = 0\<rparr>"

definition example_state :: state where
  "example_state = \<lparr>g_clients = [(1, 2) \<mapsto> example_client], g_nextId = 1\<rparr>"

definition example_readings_later :: readings where
  "example_readings_later = \<lparr>GetTime = 1000001000, getSentBytes = (\<lambda>h m. 500000)\<rparr>"

section \<open>Unfolding the model on concrete inputs\<close>

lemmas handle_defs = HTBBaseHandle_def DSMARKHandle_def rootHTBMinorDefault_def rootHTBMinorHelper_def
  rootHTBMinor_def HTBMinor_def HTBHandle_def rootHTBHandle_def
lemmas driver_defs = addHTBClass_def addHTBQdisc_def addFilter_def removeFilter_def removeClass_def
  removeQdisc_def
lemmas example_defs = example_platform_def example_readings_def example_rates_def example_bursts_def
  example_update_def default_config_def init_state_def zero_Client_def

section \<open>Handle allocator: disjoint ranges\<close>

lemma unat_add_u32: "unat a + unat b < 2 ^ 32 \<Longrightarrow> unat (a + b :: u32) = unat a + unat b"
  using unat_add_lem [of a b] by simp

lemma unat_mult_u32: "unat a * unat b < 2 ^ 32 \<Longrightarrow> unat (a * b :: u32) = unat a * unat b"
  using unat_mult_lem [of a b] by simp

lemma unat_HTBBaseHandle:
  assumes "unat pri + 3 * unat (g_numPriorities cfg) + 2 < 2 ^ 32"
  shows "unat (HTBBaseHandle cfg pri) = unat pri + 3 * unat (g_numPriorities cfg) + 2"
proof -
  let ?P = "g_numPriorities cfg"
  have u1: "unat (?P + 1) = unat ?P + 1"
    using assms unat_add_u32 [of ?P 1] by simp
  have u2: "unat (?P + (?P + 1)) = 2 * unat ?P + 1"
    using assms unat_add_u32 [of ?P "?P + 1"] u1 by simp
  have u3: "unat (?P + (?P + (?P + 1)) + 1) = 3 * unat ?P + 2"
    using assms unat_add_u32 [of ?P "?P + (?P + 1)"] unat_add_u32 [of "?P + (?P + (?P + 1))" 1] u2
    by simp
  have "unat (pri + (?P + (?P + (?P + 1)) + 1)) = unat pri + (3 * unat ?P + 2)"
    using assms unat_add_u32 [of pri "?P + (?P + (?P + 1)) + 1"] u3 by simp
  then show ?thesis
    unfolding HTBBaseHandle_def DSMARKHandle_def rootHTBMinorDefault_def rootHTBMinorHelper_def
      rootHTBMinor_def by simp
qed

lemma unat_HTBHandle:
  assumes "handles_fit cfg i" "p < g_numPriorities cfg" "l < g_numLevels cfg"
  shows "unat (HTBHandle cfg i p l) =
     (unat i * unat (g_numPriorities cfg) + unat p) * unat (g_numLevels cfg) + unat l
       + 4 * unat (g_numPriorities cfg) + 2"
proof -
  let ?P = "g_numPriorities cfg" and ?L = "g_numLevels cfg"
  define P where "P = unat ?P"
  define L where "L = unat ?L"
  define X where "X = unat i * P"
  define Y where "Y = X * L"
  define Z where "Z = unat p * L"
  define W where "W = P * L"
  have p: "unat p < P" and l: "unat l < L"
    using assms by (simp_all add: P_def L_def word_less_nat_alt)
  have "(unat i + 1) * P * L + 4 * P + 2 \<le> 2 ^ 32"
    using assms(1) by (simp add: handles_fit_def P_def L_def)
  moreover have "(unat i + 1) * P * L = Y + W"
    by (simp add: Y_def X_def W_def algebra_simps)
  ultimately have fit: "Y + W + 4 * P + 2 \<le> 2 ^ 32" by simp
  have a: "X \<le> Y" using l by (simp add: Y_def)
  have "Suc (unat p) * L \<le> P * L" using p by (intro mult_le_mono1) simp
  then have b: "Z + L \<le> W" by (simp add: Z_def W_def)
  have iP: "unat (i * ?P) = X"
    using unat_mult_u32 [of i ?P] a fit by (simp add: X_def P_def)
  have iPL: "unat (i * ?P * ?L) = Y"
    using unat_mult_u32 [of "i * ?P" ?L] iP fit by (simp add: Y_def L_def)
  have pL: "unat (p * ?L) = Z"
    using unat_mult_u32 [of p ?L] b fit by (simp add: Z_def L_def)
  have s1: "unat (i * ?P * ?L + p * ?L) = Y + Z"
    using unat_add_u32 [of "i * ?P * ?L" "p * ?L"] iPL pL b fit by simp
  have s2: "unat (i * ?P * ?L + p * ?L + l) = Y + Z + unat l"
    using unat_add_u32 [of "i * ?P * ?L + p * ?L" l] s1 b fit l by simp
  have "unat ?P + 3 * unat ?P + 2 < 2 ^ 32" using fit b l by (simp add: P_def)
  from unat_HTBBaseHandle [OF this] have base: "unat (HTBBaseHandle cfg ?P) = 4 * P + 2"
    by (simp add: P_def)
  have "unat (HTBHandle cfg i p l) = Y + Z + unat l + (4 * P + 2)"
    unfolding HTBHandle_def Let_def
    using unat_add_u32 [of "i * ?P * ?L + p * ?L + l" "HTBBaseHandle cfg ?P"] s2 base b fit l
    by simp
  then show ?thesis by (simp add: P_def L_def X_def Y_def Z_def algebra_simps)
qed

lemma mixed_radix_inj:
  fixes a b c :: nat
  assumes "a * L + b = c * L + d" "b < L" "d < L"
  shows "a = c \<and> b = d"
proof -
  have "(a * L + b) div L = a" "(c * L + d) div L = c" using assms(2,3) by simp_all
  with assms(1) have "a = c" by metis
  with assms(1) show ?thesis by simp
qed

lemma HTBHandle_inj:
  assumes "handles_fit cfg i1" "handles_fit cfg i2"
    "p1 < g_numPriorities cfg" "p2 < g_numPriorities cfg"
    "l1 < g_numLevels cfg" "l2 < g_numLevels cfg"
    "HTBHandle cfg i1 p1 l1 = HTBHandle cfg i2 p2 l2"
  shows "i1 = i2 \<and> p1 = p2 \<and> l1 = l2"
proof -
  have "(unat i1 * unat (g_numPriorities cfg) + unat p1) * unat (g_numLevels cfg) + unat l1
      = (unat i2 * unat (g_numPriorities cfg) + unat p2) * unat (g_numLevels cfg) + unat l2"
    using unat_HTBHandle [OF assms(1,3,5)] unat_HTBHandle [OF assms(2,4,6)] assms(7) by simp
  from mixed_radix_inj [OF this] assms(5,6)
  have 1: "unat i1 * unat (g_numPriorities cfg) + unat p1 = unat i2 * unat (g_numPriorities cfg) + unat p2"
    and 2: "unat l1 = unat l2" by (simp_all add: word_less_nat_alt)
  from mixed_radix_inj [OF 1] assms(3,4) have "unat i1 = unat i2" "unat p1 = unat p2"
    by (simp_all add: word_less_nat_alt)
  with 2 show ?thesis by (simp add: word_unat_eq_iff)
qed

lemma unat_root_handles:
  assumes "unat pri + 3 * unat (g_numPriorities cfg) + 2 < 2 ^ 32"
  shows "unat (rootHTBMinor pri) = unat pri + 1"
    and "unat (rootHTBMinorHelper cfg pri) = unat pri + unat (g_numPriorities cfg) + 1"
    and "unat (rootHTBMinorDefault cfg) = 2 * unat (g_numPriorities cfg) + 1"
    and "unat (DSMARKHandle cfg pri) = unat pri + 2 * unat (g_numPriorities cfg) + 2"
proof -
  let ?P = "g_numPriorities cfg"
  show m: "unat (rootHTBMinor pri) = unat pri + 1"
    using assms unat_add_u32 [of pri 1] by (simp add: rootHTBMinor_def)
  have u1: "unat (?P + 1) = unat ?P + 1"
    using assms unat_add_u32 [of ?P 1] by simp
  show "unat (rootHTBMinorHelper cfg pri) = unat pri + unat ?P + 1"
    using assms unat_add_u32 [of pri "?P + 1"] u1 by (simp add: rootHTBMinorHelper_def rootHTBMinor_def)
  have u2: "unat (?P + (?P + 1)) = 2 * unat ?P + 1"
    using assms unat_add_u32 [of ?P "?P + 1"] u1 by simp
  then show d: "unat (rootHTBMinorDefault cfg) = 2 * unat ?P + 1"
    by (simp add: rootHTBMinorDefault_def rootHTBMinorHelper_def rootHTBMinor_def)
  have u3: "unat (pri + rootHTBMinorDefault cfg) = unat pri + (2 * unat ?P + 1)"
    using assms unat_add_u32 [of pri "rootHTBMinorDefault cfg"] d by simp
  show "unat (DSMARKHandle cfg pri) = unat pri + 2 * unat ?P + 2"
    using assms unat_add_u32 [of "pri + rootHTBMinorDefault cfg" 1] u3 by (simp add: DSMARKHandle_def)
qed

lemma handles_fit_base:
  assumes "handles_fit cfg i" "p < g_numPriorities cfg" "l < g_numLevels cfg" "q < g_numPriorities cfg"
  shows "unat q + 3 * unat (g_numPriorities cfg) + 2 < 2 ^ 32" "unat i + 2 < 2 ^ 32"
proof -
  have p: "unat p < unat (g_numPriorities cfg)" and l: "unat l < unat (g_numLevels cfg)"
    and q: "unat q < unat (g_numPriorities cfg)"
    using assms by (simp_all add: word_less_nat_alt)
  define K where "K = unat (g_numPriorities cfg) * unat (g_numLevels cfg)"
  have "1 \<le> K" using p l by (simp add: K_def Suc_leI)
  then have "(unat i + 1) * 1 \<le> (unat i + 1) * K" by (intro mult_le_mono2)
  moreover have "(unat i + 1) * K + 4 * unat (g_numPriorities cfg) + 2 \<le> 2 ^ 32"
    using assms(1) unfolding handles_fit_def K_def by (simp only: mult.assoc)
  ultimately have "unat i + 1 + 4 * unat (g_numPriorities cfg) + 2 \<le> 2 ^ 32"
    by simp
  then show "unat q + 3 * unat (g_numPriorities cfg) + 2 < 2 ^ 32" "unat i + 2 < 2 ^ 32"
    using q by simp_all
qed

text \<open>
  Claim C10, amended. For priorities below \<open>g_numPriorities\<close>, levels below
  \<open>g_numLevels\<close> and client ids whose handles fit 32 bits (\<open>handles_fit\<close>), the values
  of \<open>rootHTBMinor\<close>, \<open>rootHTBMinorHelper\<close>, \<open>rootHTBMinorDefault\<close>, \<open>DSMARKHandle\<close>,
  \<open>HTBBaseHandle\<close> and \<open>HTBHandle\<close> are pairwise distinct, each function is injective
  (\<open>HTBHandle\<close> in id, priority and level together), and \<open>HTBMinor ident 0 = ident + 2\<close>
  differs for different ids and is never the reserved minor 1.
\<close>

theorem handle_ranges_disjoint:
  assumes "p1 < g_numPriorities cfg" "p2 < g_numPriorities cfg" "p3 < g_numPriorities cfg"
    "p4 < g_numPriorities cfg" "p5 < g_numPriorities cfg"
    "l1 < g_numLevels cfg" "l2 < g_numLevels cfg"
    "handles_fit cfg i1" "handles_fit cfg i2"
  shows "distinct [rootHTBMinor p1, rootHTBMinorHelper cfg p2, rootHTBMinorDefault cfg,
                   DSMARKHandle cfg p3, HTBBaseHandle cfg p4, HTBHandle cfg i1 p5 l1]
    \<and> (rootHTBMinor p1 = rootHTBMinor p2 \<longrightarrow> p1 = p2)
    \<and> (rootHTBMinorHelper cfg p1 = rootHTBMinorHelper cfg p2 \<longrightarrow> p1 = p2)
    \<and> (DSMARKHandle cfg p1 = DSMARKHandle cfg p2 \<longrightarrow> p1 = p2)
    \<and> (HTBBaseHandle cfg p1 = HTBBaseHandle cfg p2 \<longrightarrow> p1 = p2)
    \<and> (HTBHandle cfg i1 p1 l1 = HTBHandle cfg i2 p2 l2 \<longrightarrow> i1 = i2 \<and> p1 = p2 \<and> l1 = l2)
    \<and> HTBMinor i1 0 = i1 + 2
    \<and> (HTBMinor i1 0 = HTBMinor i2 0 \<longrightarrow> i1 = i2)
    \<and> HTBMinor i1 0 \<noteq> 1"
proof -
  let ?P = "unat (g_numPriorities cfg)"
  note fb = handles_fit_base [OF assms(8) assms(5) assms(6)]
  have lt: "unat p1 < ?P" "unat p2 < ?P" "unat p3 < ?P" "unat p4 < ?P" "unat p5 < ?P"
    using assms by (simp_all add: word_less_nat_alt)
  have a: "unat (rootHTBMinor p1) = unat p1 + 1"
    using unat_root_handles(1) [OF fb(1) [OF assms(1)]] .
  have b: "unat (rootHTBMinorHelper cfg p2) = unat p2 + ?P + 1"
    using unat_root_handles(2) [OF fb(1) [OF assms(2)]] .
  have c: "unat (rootHTBMinorDefault cfg) = 2 * ?P + 1"
    using unat_root_handles(3) [OF fb(1) [OF assms(1)]] .
  have d: "unat (DSMARKHandle cfg p3) = unat p3 + 2 * ?P + 2"
    using unat_root_handles(4) [OF fb(1) [OF assms(3)]] .
  have e: "unat (HTBBaseHandle cfg p4) = unat p4 + 3 * ?P + 2"
    using unat_HTBBaseHandle [OF fb(1) [OF assms(4)]] .
  have f: "4 * ?P + 2 \<le> unat (HTBHandle cfg i1 p5 l1)"
    using unat_HTBHandle [OF assms(8) assms(5) assms(6)] by simp
  have "distinct [rootHTBMinor p1, rootHTBMinorHelper cfg p2, rootHTBMinorDefault cfg,
                   DSMARKHandle cfg p3, HTBBaseHandle cfg p4, HTBHandle cfg i1 p5 l1]"
    using a b c d e f lt by (simp add: word_unat_eq_iff)
  moreover have "rootHTBMinor p1 = rootHTBMinor p2 \<longrightarrow> p1 = p2"
    by (simp add: rootHTBMinor_def)
  moreover have "rootHTBMinorHelper cfg p1 = rootHTBMinorHelper cfg p2 \<longrightarrow> p1 = p2"
    by (simp add: rootHTBMinorHelper_def)
  moreover have "DSMARKHandle cfg p1 = DSMARKHandle cfg p2 \<longrightarrow> p1 = p2"
    by (simp add: DSMARKHandle_def)
  moreover have "HTBBaseHandle cfg p1 = HTBBaseHandle cfg p2 \<longrightarrow> p1 = p2"
    by (simp add: HTBBaseHandle_def)
  moreover have "HTBHandle cfg i1 p1 l1 = HTBHandle cfg i2 p2 l2 \<longrightarrow> i1 = i2 \<and> p1 = p2 \<and> l1 = l2"
    using HTBHandle_inj [OF assms(8,9,1,2,6,7)] by blast
  moreover have "HTBMinor i1 0 = i1 + 2" by (simp add: HTBMinor_def)
  moreover have "HTBMinor i1 0 = HTBMinor i2 0 \<longrightarrow> i1 = i2" by (simp add: HTBMinor_def)
  moreover have "HTBMinor i1 0 \<noteq> 1"
  proof -
    have "unat (i1 + 2) = unat i1 + 2" using unat_add_u32 [of i1 2] fb(2) [OF assms(1)] by simp
    then have "unat (i1 + 2) \<noteq> unat (1 :: u32)" by simp
    then have neq: "i1 + 2 \<noteq> 1" by metis
    have eq: "HTBMinor i1 0 = i1 + 2" by (simp add: HTBMinor_def)
    show ?thesis unfolding eq by (rule neq)
  qed
  ultimately show ?thesis by blast
qed

theorem handle_ranges_disjoint_witness:
  "distinct [rootHTBMinor 0, rootHTBMinorHelper default_config 1, rootHTBMinorDefault default_config,
             DSMARKHandle default_config 2, HTBBaseHandle default_config 3,
             HTBHandle default_config 1 4 0]
   \<and> HTBHandle default_config 1 0 0 \<noteq> HTBHandle default_config 0 1 4
   \<and> HTBMinor 1 0 \<noteq> 1"
proof -
  have h: "(0::u32) < g_numPriorities default_config" "(1::u32) < g_numPriorities default_config"
    "(2::u32) < g_numPriorities default_config" "(3::u32) < g_numPriorities default_config"
    "(4::u32) < g_numPriorities default_config"
    "(0::u32) < g_numLevels default_config" "(4::u32) < g_numLevels default_config"
    "handles_fit default_config 1" "handles_fit default_config 0"
    by (simp_all add: default_config_def handles_fit_def)
  show ?thesis using handle_ranges_disjoint [OF h] by simp
qed

text \<open>
  Claim C10 as stated, for every id, fails: the allocator computes in 32 bits, so with the
  default configuration the ids 2331553675 and 0 share a qdisc handle (35 * 2331553675 is
  1 modulo 2^32), and the id 4294967295 gets the reserved minor 1.
\<close>

theorem handle_collision_on_wraparound:
  "(0::u32) < g_numPriorities default_config \<and> (0::u32) < g_numLevels default_config
   \<and> (1::u32) < g_numLevels default_config
   \<and> (2331553675::u32) \<noteq> 0
   \<and> HTBHandle default_config 2331553675 0 0 = HTBHandle default_config 0 0 1
   \<and> HTBMinor 4294967295 0 = 1"
  by (simp add: default_config_def HTBHandle_def HTBMinor_def)

section \<open>The reconciliation engine, level by level\<close>

lemma unat_of_nat_u32: "k < 2 ^ 32 \<Longrightarrow> unat (of_nat k :: u32) = k"
  by (simp add: unat_of_nat)

lemma level_word_facts:
  assumes "2 * k + 1 < 2 ^ 32"
  shows "unat (of_nat k * 2 :: u32) = 2 * k"
    and "unat (of_nat k * 2 + 1 :: u32) = 2 * k + 1"
    and "(of_nat k * 2 :: u32) = of_nat (2 * k)"
    and "(of_nat k * 2 + 1 :: u32) = of_nat (2 * k + 1)"
    and "(0 < (of_nat k :: u32)) = (0 < k)"
    and "((of_nat k :: u32) = 0) = (k = 0)"
proof -
  have e1: "(of_nat k * 2 :: u32) = of_nat (2 * k)" by simp
  have e2: "(of_nat k * 2 + 1 :: u32) = of_nat (2 * k + 1)" by simp
  show "unat (of_nat k * 2 :: u32) = 2 * k"
    unfolding e1 using assms by (intro unat_of_nat_u32) simp
  show "unat (of_nat k * 2 + 1 :: u32) = 2 * k + 1"
    unfolding e2 using assms by (intro unat_of_nat_u32) simp
  show "(of_nat k * 2 :: u32) = of_nat (2 * k)" by (rule e1)
  show "(of_nat k * 2 + 1 :: u32) = of_nat (2 * k + 1)" by (rule e2)
  have k: "unat (of_nat k :: u32) = k" using assms by (intro unat_of_nat_u32) simp
  show "((of_nat k :: u32) = 0) = (k = 0)" using k by (simp add: word_unat_eq_iff)
  then show "(0 < (of_nat k :: u32)) = (0 < k)" by (simp add: word_greater_zero_iff)
qed

lemma chainWalk_step:
  assumes b: "2 * k + 1 < 2 ^ 32" and c: "2 * k < unat len"
  shows "chainWalk pf cfg ident pri len rates bursts oldPriority oldRateLimitLength
           (of_nat k) (walk_parent cfg ident pri (k - 1)) (HTBMinor ident (of_nat (k - 1)))
           (HTBHandle cfg ident pri (of_nat (k - 1))) acc
       = chainWalk pf cfg ident pri len rates bursts oldPriority oldRateLimitLength
           (of_nat (Suc k)) (walk_parent cfg ident pri k) (HTBMinor ident (of_nat k))
           (HTBHandle cfg ident pri (of_nat k))
           (acc @ level_cmds pf cfg ident pri len rates bursts oldPriority oldRateLimitLength k)"
proof -
  have lt: "(of_nat k * 2 :: u32) < len"
    using level_word_facts(1) [OF b] c by (simp add: word_less_nat_alt)
  have c1: "((of_nat k * 2 + 1 :: u32) < len) = (2 * k + 1 < unat len)"
    using level_word_facts(2) [OF b] by (simp add: word_less_nat_alt)
  have c2: "(oldRateLimitLength \<le> (of_nat k * 2 :: u32)) = (unat oldRateLimitLength \<le> 2 * k)"
    using level_word_facts(1) [OF b] by (simp add: word_le_nat_alt)
  have minor0: "HTBMinor ident (of_nat k) = (if k = 0 then ident + 2 else 1)"
    using level_word_facts(6) [OF b] by (simp add: HTBMinor_def)
  show ?thesis
  proof (cases "k = 0")
    case True
    have cls: "addHTBClass (walk_parent cfg ident pri 0) (HTBMinor ident 0)
            (uint_of_double pf (rates 0))
            (if (1::u32) < len then uint_of_double pf (rates 1) else uint_of_double pf (rates 0))
            (uint_of_double pf (bursts 0))
            (if (1::u32) < len then uint_of_double pf (bursts 1) else uint_of_double pf (bursts 0))
          = level_class pf cfg ident pri len rates bursts 0"
      using c1 by (simp add: True level_class_def addHTBClass_def HTBMinor_def)
    have q: "level_qdisc cfg ident pri oldPriority oldRateLimitLength 0 = []"
      by (simp add: level_qdisc_def)
    show ?thesis
      apply (subst chainWalk.simps)
      using lt c1 apply (simp add: True Let_def level_cmds_def q level_class_def addHTBClass_def HTBMinor_def)
      done
  next
    case False
    then have pos: "0 < (of_nat k :: u32)" "0 < k" using level_word_facts(5) [OF b] by simp_all
    have wp: "HTBHandle cfg ident pri (of_nat (k - 1)) = walk_parent cfg ident pri k"
      using False by (simp add: walk_parent_def)
    have q: "(if oldRateLimitLength \<le> of_nat k * 2 \<or> oldPriority \<noteq> pri
              then acc @ [addHTBQdisc (walk_parent cfg ident pri (k - 1)) (HTBMinor ident (of_nat (k - 1)))
                            (walk_parent cfg ident pri k)]
              else acc)
         = acc @ level_qdisc cfg ident pri oldPriority oldRateLimitLength k"
    proof (cases "unat oldRateLimitLength \<le> 2 * k \<or> oldPriority \<noteq> pri")
      case True
      then show ?thesis by (simp only: level_qdisc_def c2 pos(2) simp_thms if_True)
    next
      case False
      then show ?thesis by (simp only: level_qdisc_def c2 simp_thms if_False append_Nil2)
    qed
    have cls: "addHTBClass (walk_parent cfg ident pri k) (HTBMinor ident (of_nat k))
            (uint_of_double pf (rates (of_nat k * 2)))
            (if (of_nat k * 2 + 1 :: u32) < len then uint_of_double pf (rates (of_nat k * 2 + 1))
             else uint_of_double pf (rates (of_nat k * 2)))
            (uint_of_double pf (bursts (of_nat k * 2)))
            (if (of_nat k * 2 + 1 :: u32) < len then uint_of_double pf (bursts (of_nat k * 2 + 1))
             else uint_of_double pf (bursts (of_nat k * 2)))
          = level_class pf cfg ident pri len rates bursts k"
      apply (simp only: c1)
      apply (simp only: level_word_facts(4) [OF b])
      apply (simp only: level_word_facts(3) [OF b] minor0)
      apply (simp add: level_class_def addHTBClass_def False)
      done
    have suc: "(of_nat k + 1 :: u32) = of_nat (Suc k)" by simp
    show ?thesis
      apply (subst chainWalk.simps)
      apply (simp only: lt pos if_True Let_def wp simp_thms q cls suc level_cmds_def append_assoc)
      done
  qed
qed

lemma chainWalk_from:
  assumes "unat len < 2 ^ 32 - 1" "k \<le> num_levels len"
  shows "chainWalk pf cfg ident pri len rates bursts oldPriority oldRateLimitLength
           (of_nat k) (walk_parent cfg ident pri (k - 1)) (HTBMinor ident (of_nat (k - 1)))
           (HTBHandle cfg ident pri (of_nat (k - 1))) acc
         = Some (of_nat (num_levels len), walk_parent cfg ident pri (num_levels len - 1),
                 HTBMinor ident (of_nat (num_levels len - 1)),
                 HTBHandle cfg ident pri (of_nat (num_levels len - 1)),
                 acc @ concat (map (level_cmds pf cfg ident pri len rates bursts oldPriority oldRateLimitLength)
                                [k..<num_levels len]))"
  using assms(2)
proof (induction "num_levels len - k" arbitrary: k acc)
  case 0
  then have k: "k = num_levels len" by simp
  have b: "2 * k + 1 < 2 ^ 32" using assms(1) k unfolding num_levels_def by (simp; arith)
  have "\<not> (of_nat k * 2 :: u32) < len"
    using level_word_facts(1) [OF b] k unfolding word_less_nat_alt num_levels_def by (simp; arith)
  then show ?case
    by (subst chainWalk.simps) (simp add: k)
next
  case (Suc d)
  then have lt: "k < num_levels len" by simp
  have b: "2 * k + 1 < 2 ^ 32" using assms(1) lt unfolding num_levels_def by (simp; arith)
  have c: "2 * k < unat len" using lt unfolding num_levels_def by arith
  have step: "Suc k - 1 = k" by simp
  have ih: "chainWalk pf cfg ident pri len rates bursts oldPriority oldRateLimitLength
           (of_nat (Suc k)) (walk_parent cfg ident pri k) (HTBMinor ident (of_nat k))
           (HTBHandle cfg ident pri (of_nat k)) acc'
         = Some (of_nat (num_levels len), walk_parent cfg ident pri (num_levels len - 1),
                 HTBMinor ident (of_nat (num_levels len - 1)),
                 HTBHandle cfg ident pri (of_nat (num_levels len - 1)),
                 acc' @ concat (map (level_cmds pf cfg ident pri len rates bursts oldPriority oldRateLimitLength)
                                [Suc k..<num_levels len]))" for acc'
    using Suc.hyps(1) [of "Suc k" acc'] Suc.hyps(2) lt by (simp only: step; simp)
  have up: "[k..<num_levels len] = k # [Suc k..<num_levels len]"
    using lt by (simp add: upt_conv_Cons)
  show ?case
    unfolding chainWalk_step [OF b c] ih up by simp
qed

lemma chainWalk_start:
  assumes "unat len < 2 ^ 32 - 1"
  shows "chainWalk pf cfg ident pri len rates bursts oldPriority oldRateLimitLength
           0 (HTBBaseHandle cfg pri) (HTBMinor ident 0) (HTBHandle cfg ident pri 0) []
         = Some (of_nat (num_levels len), walk_parent cfg ident pri (num_levels len - 1),
                 HTBMinor ident (of_nat (num_levels len - 1)),
                 HTBHandle cfg ident pri (of_nat (num_levels len - 1)),
                 concat (map (level_cmds pf cfg ident pri len rates bursts oldPriority oldRateLimitLength)
                          [0..<num_levels len]))"
  using chainWalk_from [OF assms, of 0 pf cfg ident pri rates bursts oldPriority oldRateLimitLength "[]"]
  by (simp add: walk_parent_def)

lemma num_levels_word:
  assumes "unat len < 2 ^ 32 - 1"
  shows "((of_nat (num_levels len) * 2 :: u32) < w) = (2 * num_levels len < unat w)"
proof -
  have "2 * num_levels len + 1 < 2 ^ 32" using assms unfolding num_levels_def by (simp; arith)
  from level_word_facts(1) [OF this] show ?thesis by (simp add: word_less_nat_alt)
qed

lemma updateSentBytes_keeps:
  "id_c (updateSentBytes pf cfg rd c) = id_c c"
  "priority (updateSentBytes pf cfg rd c) = priority c"
  "rateLimitLength (updateSentBytes pf cfg rd c) = rateLimitLength c"
  "rate (updateSentBytes pf cfg rd c) = rate c"
  by (simp_all add: updateSentBytes_def Let_def)

lemma if_append: "(if b then xs @ ys else xs) = xs @ (if b then ys else [])"
  by simp

lemma updateClient_existing:
  assumes "g_clients s (dst, src) = Some c0" "unat len < 2 ^ 32 - 1"
  shows "updateClient pf cfg rd dst src pri len rates bursts s =
     Some (\<lparr>g_clients =
              (if pri = g_numPriorities cfg then (g_clients s)((dst, src) := None)
               else (g_clients s)((dst, src) \<mapsto>
                 (if priority c0 \<noteq> pri
                  then (updateSentBytes pf cfg rd c0)
                         \<lparr>priority := pri, rateLimitLength := len,
                          rate := (if 0 < len then rates 0 else double_of_u32 (g_maxRate cfg)),
                          prevSentBytes := 0\<rparr>
                  else (updateSentBytes pf cfg rd c0)
                         \<lparr>priority := pri, rateLimitLength := len,
                          rate := (if 0 < len then rates 0 else double_of_u32 (g_maxRate cfg))\<rparr>))),
             g_nextId = g_nextId s\<rparr>,
           concat (map (level_cmds pf cfg (id_c c0) pri len rates bursts (priority c0) (rateLimitLength c0))
                    [0..<num_levels len])
           @ tail_cmds cfg dst src (id_c c0) pri len (priority c0) (rateLimitLength c0))"
  unfolding updateClient_def
  apply (simp only: assms(1) Let_def option.simps simp_thms if_False updateSentBytes_keeps
      Client.simps chainWalk_start [OF assms(2)] prod.case num_levels_word [OF assms(2)])
  apply (simp add: tail_cmds_def updateSentBytes_keeps)
  done

lemma updateClient_new:
  assumes "g_clients s (dst, src) = None" "pri \<noteq> g_numPriorities cfg" "unat len < 2 ^ 32 - 1"
  shows "updateClient pf cfg rd dst src pri len rates bursts s =
     Some (\<lparr>g_clients = (g_clients s)((dst, src) \<mapsto>
               \<lparr>id_c = g_nextId s, priority = pri, rateLimitLength = len,
                rate = (if 0 < len then rates 0 else double_of_u32 (g_maxRate cfg)),
                lastSentBytesTime = GetTime rd, maxSentBytes = Finite 0, prevSentBytes = 0,
                sentBytes = 0\<rparr>),
             g_nextId = g_nextId s + 1\<rparr>,
           concat (map (level_cmds pf cfg (g_nextId s) pri len rates bursts (g_numPriorities cfg) 0)
                    [0..<num_levels len])
           @ tail_cmds cfg dst src (g_nextId s) pri len (g_numPriorities cfg) 0)"
  unfolding updateClient_def
  apply (simp only: assms(1,2) Let_def option.simps simp_thms if_False if_True
      Client.simps chainWalk_start [OF assms(3)] prod.case num_levels_word [OF assms(3)])
  using assms(2) apply (simp add: tail_cmds_def zero_Client_def)
  done

lemma filter_class_level_cmds:
  "filter is_class_cmd (concat (map (level_cmds pf cfg ident pri len rates bursts oP oL) ls))
     = map (level_class pf cfg ident pri len rates bursts) ls"
  by (induction ls) (simp_all add: level_cmds_def level_qdisc_def level_class_def addHTBQdisc_def)

lemma filter_class_tail_cmds: "filter is_class_cmd (tail_cmds cfg dst src ident pri len oP oL) = []"
  by (simp add: tail_cmds_def addFilter_def removeFilter_def removeQdisc_def removeClass_def)

lemma even_num_levels: "even (unat len) \<Longrightarrow> num_levels len = unat len div 2"
  unfolding num_levels_def by (simp; arith)

lemma even_not_max: "even (unat (len :: u32)) \<Longrightarrow> unat len < 2 ^ 32 - 1"
proof -
  assume e: "even (unat len)"
  have "unat len < 2 ^ 32" using unsigned_less [of len] by simp
  moreover have "unat len \<noteq> 2 ^ 32 - 1" using e by auto
  ultimately show ?thesis by simp
qed

text \<open>
  The one chain length for which the loop does not end: \<open>level * 2\<close> is even in 32
  bits, so it stays below \<open>2^32 - 1\<close>.
\<close>

lemma even_times2_less_max: "(level * 2 :: u32) < 4294967295"
proof -
  have "unat (level * 2) = unat level * unat (2 :: u32) mod 2 ^ LENGTH(32)"
    by (rule unat_word_ariths(2))
  then have "unat (level * 2) = (unat level * 2) mod 2 ^ 32" by simp
  moreover have "even ((unat level * 2) mod (2 ^ 32 :: nat))"
  proof -
    have "(2::nat) dvd 2 ^ 32" by simp
    then have "even ((unat level * 2) mod (2 ^ 32 :: nat)) \<longleftrightarrow> even (unat level * 2)"
      by (rule dvd_mod_iff)
    then show ?thesis by simp
  qed
  ultimately have "even (unat (level * 2))" by (simp only:)
  from even_not_max [OF this] show ?thesis by (simp add: word_less_nat_alt)
qed

lemma chainWalk_never_returns:
  assumes "chainWalk pf cfg ident pri len rates bursts oP oL level ph mn ch cmds = Some r"
  shows "len \<noteq> 4294967295"
proof (rule chainWalk.raw_induct
    [where P = "\<lambda>a1 a2 a3 a4 len a6 a7 a8 a9 a10 a11 a12 a13 a14 y. len \<noteq> 4294967295", OF _ assms])
  fix f :: "platform \<Rightarrow> config \<Rightarrow> u32 \<Rightarrow> u32 \<Rightarrow> u32 \<Rightarrow> (u32 \<Rightarrow> double) \<Rightarrow> (u32 \<Rightarrow> double) \<Rightarrow> u32 \<Rightarrow> u32 \<Rightarrow>
   u32 \<Rightarrow> u32 \<Rightarrow> u32 \<Rightarrow> u32 \<Rightarrow> tc_cmd list \<Rightarrow> (u32 \<times> u32 \<times> u32 \<times> u32 \<times> tc_cmd list) option"
  fix pf cfg ident pri len rates bursts oP oL level ph mn ch cmds y
  assume ih: "\<And>pf cfg ident pri len rates bursts oP oL level ph mn ch cmds y.
      f pf cfg ident pri len rates bursts oP oL level ph mn ch cmds = Some y \<Longrightarrow> len \<noteq> 4294967295"
  assume step: "(if level * 2 < len then
        (let cmds1 = (if 0 < level \<and> (oL \<le> level * 2 \<or> oP \<noteq> pri)
                      then cmds @ [addHTBQdisc ph mn ch] else cmds);
             parentHandle1 = (if 0 < level then ch else ph);
             minor1 = (if 0 < level then HTBMinor ident level else mn);
             childHandle1 = (if 0 < level then HTBHandle cfg ident pri level else ch);
             rt = uint_of_double pf (rates (level * 2));
             burst = uint_of_double pf (bursts (level * 2));
             ceil = (if level * 2 + 1 < len
                     then uint_of_double pf (rates (level * 2 + 1)) else rt);
             cburst = (if level * 2 + 1 < len
                       then uint_of_double pf (bursts (level * 2 + 1)) else burst)
         in f pf cfg ident pri len rates bursts oP oL
              (level + 1) parentHandle1 minor1 childHandle1
              (cmds1 @ [addHTBClass parentHandle1 minor1 rt ceil burst cburst]))
      else Some (level, ph, mn, ch, cmds)) = Some y"
  show "len \<noteq> 4294967295"
  proof
    assume m: "len = 4294967295"
    have "level * 2 < len" unfolding m by (rule even_times2_less_max)
    with step obtain a b c d e where "f pf cfg ident pri len rates bursts oP oL a b c d e = Some y"
      by (simp add: Let_def)
    from ih [OF this] m show False by simp
  qed
qed

lemma chainWalk_diverges:
  "chainWalk pf cfg ident pri 4294967295 rates bursts oP oL level ph mn ch cmds = None"
  using chainWalk_never_returns [of pf cfg ident pri 4294967295 rates bursts oP oL level ph mn ch cmds]
  by (cases "chainWalk pf cfg ident pri 4294967295 rates bursts oP oL level ph mn ch cmds") auto

lemma updateClient_diverges:
  assumes "\<not> (g_clients s (dst, src) = None \<and> pri = g_numPriorities cfg)"
  shows "updateClient pf cfg rd dst src pri 4294967295 rates bursts s = None"
  using assms by (simp add: updateClient_def Let_def chainWalk_diverges)

text \<open>
  Claim C1. A call of \<open>updateClient\<close> with a priority below \<open>g_numPriorities\<close> and a
  chain of even length returns, and the \<open>addHTBClass\<close> commands it runs are, in order,
  exactly one per level \<open>l\<close> below \<open>len div 2\<close>: the class \<open>level_class l\<close> for the id
  that the client has, or gets when it is new (\<open>client_ident\<close>), with rate
  and burst from index \<open>2l\<close>, ceil and cburst from index \<open>2l + 1\<close> when that is below
  \<open>len\<close> and equal to rate and burst otherwise, on \<open>HTBBaseHandle pri\<close> with minor
  \<open>id + 2\<close> for level 0 and on the handle of the client's qdisc of level \<open>l - 1\<close> with
  minor 1 for \<open>l > 0\<close>. A chain of \<open>(g_numLevels + 1) * 2\<close> values installs
  \<open>g_numLevels + 1\<close> classes.
\<close>

theorem chain_walk_installs_levels:
  assumes "pri < g_numPriorities cfg" "even (unat len)"
  shows "\<exists>s1 cmds. updateClient pf cfg rd dst src pri len rates bursts s = Some (s1, cmds)
     \<and> filter is_class_cmd cmds
         = map (level_class pf cfg (client_ident s dst src) pri len rates bursts) [0..<unat len div 2]
     \<and> (unat len = (unat (g_numLevels cfg) + 1) * 2
          \<longrightarrow> length (filter is_class_cmd cmds) = unat (g_numLevels cfg) + 1)"
proof -
  note nm = even_not_max [OF assms(2)]
  have ne: "pri \<noteq> g_numPriorities cfg" using assms(1) by auto
  have "\<exists>s1 cmds. updateClient pf cfg rd dst src pri len rates bursts s = Some (s1, cmds)
     \<and> filter is_class_cmd cmds
         = map (level_class pf cfg (client_ident s dst src) pri len rates bursts) [0..<unat len div 2]"
  proof (cases "g_clients s (dst, src)")
    case None
    show ?thesis
      unfolding updateClient_new [OF None ne nm]
      by (simp add: filter_class_level_cmds filter_class_tail_cmds even_num_levels [OF assms(2)]
          client_ident_def None)
  next
    case (Some c0)
    show ?thesis
      unfolding updateClient_existing [OF Some nm]
      by (simp add: filter_class_level_cmds filter_class_tail_cmds even_num_levels [OF assms(2)]
          client_ident_def Some)
  qed
  then obtain s1 cmds where
    r: "updateClient pf cfg rd dst src pri len rates bursts s = Some (s1, cmds)" and
    f: "filter is_class_cmd cmds
         = map (level_class pf cfg (client_ident s dst src) pri len rates bursts) [0..<unat len div 2]"
    by blast
  have "unat len = (unat (g_numLevels cfg) + 1) * 2
          \<longrightarrow> length (filter is_class_cmd cmds) = unat (g_numLevels cfg) + 1"
    unfolding f by simp
  with r f show ?thesis by blast
qed

theorem chain_walk_installs_levels_witness:
  "\<exists>s1 cmds. updateClient example_platform default_config example_readings 1 2 3 12
        example_rates example_bursts init_state = Some (s1, cmds)
     \<and> filter is_class_cmd cmds
         = [ClassReplaceHTB 26 2 1000 1001 100 101, ClassReplaceHTB 45 1 1002 1003 102 103,
            ClassReplaceHTB 46 1 1004 1005 104 105, ClassReplaceHTB 47 1 1006 1007 106 107,
            ClassReplaceHTB 48 1 1008 1009 108 109, ClassReplaceHTB 49 1 1010 1011 110 111]
     \<and> length (filter is_class_cmd cmds) = unat (g_numLevels default_config) + 1"
proof -
  have h: "(3::u32) < g_numPriorities default_config" "even (unat (12::u32))"
    by (simp_all add: default_config_def)
  have n: "unat (12::u32) = (unat (g_numLevels default_config) + 1) * 2"
    by (simp add: default_config_def)
  have e: "map (level_class example_platform default_config (client_ident init_state 1 2) 3 12
             example_rates example_bursts) [0..<unat (12::u32) div 2]
      = [ClassReplaceHTB 26 2 1000 1001 100 101, ClassReplaceHTB 45 1 1002 1003 102 103,
         ClassReplaceHTB 46 1 1004 1005 104 105, ClassReplaceHTB 47 1 1006 1007 106 107,
         ClassReplaceHTB 48 1 1008 1009 108 109, ClassReplaceHTB 49 1 1010 1011 110 111]"
  proof -
    have u: "[0..<unat (12::u32) div 2] = [0, 1, 2, 3, 4, 5]" by (simp add: upt_rec)
    show ?thesis
      unfolding u
      by (simp add: level_class_def walk_parent_def client_ident_def handle_defs example_defs)
  qed
  show ?thesis
    using chain_walk_installs_levels [OF h, of example_platform example_readings 1 2
        example_rates example_bursts init_state] n
    unfolding e by blast
qed

section \<open>Repeating an update\<close>

lemma not_max_word: "len < (4294967295 :: u32) \<Longrightarrow> unat len < 2 ^ 32 - 1"
  by (simp add: word_less_nat_alt)

lemma updateClient_returns:
  assumes "pri \<noteq> g_numPriorities cfg" "unat len < 2 ^ 32 - 1"
  shows "\<exists>s1 cmds1 c1. updateClient pf cfg rd dst src pri len rates bursts s = Some (s1, cmds1)
     \<and> g_clients s1 (dst, src) = Some c1
     \<and> priority c1 = pri \<and> rateLimitLength c1 = len
     \<and> id_c c1 = client_ident s dst src
     \<and> rate c1 = (if 0 < len then rates 0 else double_of_u32 (g_maxRate cfg))
     \<and> filter is_class_cmd cmds1
         = map (level_class pf cfg (client_ident s dst src) pri len rates bursts) [0..<num_levels len]"
proof (cases "g_clients s (dst, src)")
  case None
  show ?thesis
    unfolding updateClient_new [OF None assms]
    by (simp add: filter_class_level_cmds filter_class_tail_cmds client_ident_def None)
next
  case (Some c0)
  show ?thesis
    unfolding updateClient_existing [OF Some assms(2)]
    using assms(1)
    by (simp add: filter_class_level_cmds filter_class_tail_cmds client_ident_def Some
        updateSentBytes_keeps)
qed

lemma level_cmds_same:
  assumes "l < num_levels len"
  shows "level_cmds pf cfg ident pri len rates bursts pri len l
           = [level_class pf cfg ident pri len rates bursts l]"
proof -
  have "2 * l < unat len" using assms unfolding num_levels_def by arith
  then show ?thesis by (simp add: level_cmds_def level_qdisc_def)
qed

lemma concat_map_singletons:
  "(\<And>x. x \<in> set xs \<Longrightarrow> f x = [g x]) \<Longrightarrow> concat (map f xs) = map g xs"
  by (induction xs) simp_all

lemma walk_same:
  "concat (map (level_cmds pf cfg ident pri len rates bursts pri len) [0..<num_levels len])
     = map (level_class pf cfg ident pri len rates bursts) [0..<num_levels len]"
  by (rule concat_map_singletons) (simp add: level_cmds_same)

lemma tail_cmds_same: "tail_cmds cfg dst src ident pri len pri len = []"
proof -
  have "\<not> 2 * num_levels len < unat len" unfolding num_levels_def by arith
  moreover have "\<not> (0 < len \<and> len = 0)" by auto
  ultimately show ?thesis by (simp add: tail_cmds_def)
qed

text \<open>
  Claim C4. Two calls of \<open>updateClient\<close> in a row with the same (dst, src), the same
  priority below \<open>g_numPriorities\<close> and the same chain (whatever the clock and the
  counters read) both return; the commands of the second call are the \<open>addHTBClass\<close>
  commands of the first, in order, and nothing else: no qdisc or filter is added, nothing
  is removed. Priority, chain length and rate of the client are the ones the first call
  left. This holds for every chain length but \<open>2^32 - 1\<close>, the one length for which
  the 32-bit test \<^verbatim>\<open>(level * 2) < rateLimitLength\<close> never fails.
\<close>

theorem repeated_update_only_replaces_classes:
  assumes "pri < g_numPriorities cfg" "len < 4294967295"
  shows "\<exists>s1 cmds1 s2 cmds2 c1 c2.
      updateClient pf cfg rd1 dst src pri len rates bursts s = Some (s1, cmds1)
    \<and> updateClient pf cfg rd2 dst src pri len rates bursts s1 = Some (s2, cmds2)
    \<and> cmds2 = filter is_class_cmd cmds1
    \<and> list_all is_class_cmd cmds2
    \<and> g_clients s1 (dst, src) = Some c1 \<and> g_clients s2 (dst, src) = Some c2
    \<and> priority c2 = priority c1 \<and> rateLimitLength c2 = rateLimitLength c1 \<and> rate c2 = rate c1"
proof -
  note nm = not_max_word [OF assms(2)]
  have ne: "pri \<noteq> g_numPriorities cfg" using assms(1) by auto
  from updateClient_returns [OF ne nm, of pf rd1 dst src rates bursts s]
  obtain s1 cmds1 c1 where
    r1: "updateClient pf cfg rd1 dst src pri len rates bursts s = Some (s1, cmds1)" and
    g1: "g_clients s1 (dst, src) = Some c1" and
    p1: "priority c1 = pri" "rateLimitLength c1 = len" and
    i1: "id_c c1 = client_ident s dst src" and
    t1: "rate c1 = (if 0 < len then rates 0 else double_of_u32 (g_maxRate cfg))" and
    f1: "filter is_class_cmd cmds1
         = map (level_class pf cfg (client_ident s dst src) pri len rates bursts) [0..<num_levels len]"
    by blast
  let ?c2 = "(updateSentBytes pf cfg rd2 c1)
               \<lparr>priority := pri, rateLimitLength := len,
                rate := (if 0 < len then rates 0 else double_of_u32 (g_maxRate cfg))\<rparr>"
  let ?s2 = "\<lparr>g_clients = (g_clients s1)((dst, src) \<mapsto> ?c2), g_nextId = g_nextId s1\<rparr>"
  have r2: "updateClient pf cfg rd2 dst src pri len rates bursts s1
      = Some (?s2, filter is_class_cmd cmds1)"
    unfolding updateClient_existing [OF g1 nm] p1 i1 walk_same tail_cmds_same f1
    using ne by simp
  have a: "list_all is_class_cmd (filter is_class_cmd cmds1)"
    by (simp add: list_all_iff)
  have b: "g_clients ?s2 (dst, src) = Some ?c2" by simp
  have c: "priority ?c2 = priority c1" "rateLimitLength ?c2 = rateLimitLength c1" "rate ?c2 = rate c1"
    using p1 t1 by simp_all
  from r1 r2 a g1 b c show ?thesis by blast
qed

theorem repeated_update_only_replaces_classes_witness:
  "\<exists>s1 cmds1 s2 cmds2 c1 c2.
      updateClient example_platform default_config example_readings 1 2 3 4
        example_rates example_bursts init_state = Some (s1, cmds1)
    \<and> updateClient example_platform default_config example_readings 1 2 3 4
        example_rates example_bursts s1 = Some (s2, cmds2)
    \<and> cmds2 = filter is_class_cmd cmds1
    \<and> list_all is_class_cmd cmds2
    \<and> g_clients s1 (1, 2) = Some c1 \<and> g_clients s2 (1, 2) = Some c2
    \<and> priority c2 = priority c1 \<and> rateLimitLength c2 = rateLimitLength c1 \<and> rate c2 = rate c1"
proof -
  have h: "(3::u32) < g_numPriorities default_config" "(4::u32) < 4294967295"
    by (simp_all add: default_config_def)
  show ?thesis
    using repeated_update_only_replaces_classes [OF h] .
qed

section \<open>Priority changes and the root filter\<close>

lemma filter_root_level_cmds:
  "filter root_filter_cmd (concat (map (level_cmds pf cfg ident pri len rates bursts oP oL) ls)) = []"
  by (induction ls) (simp_all add: level_cmds_def level_qdisc_def level_class_def addHTBQdisc_def)

lemma filter_root_tail_cmds:
  assumes "HTBBaseHandle cfg oP \<noteq> rootHTBHandle" "HTBBaseHandle cfg pri \<noteq> rootHTBHandle"
  shows "filter root_filter_cmd (tail_cmds cfg dst src ident pri len oP oL)
     = (if oP \<noteq> pri \<and> oP < g_numPriorities cfg then [FilterDel rootHTBHandle (ident + 1)] else [])
       @ (if oP \<noteq> pri \<and> pri < g_numPriorities cfg
          then [FilterAdd rootHTBHandle (ident + 1) dst src (rootHTBMinor pri)] else [])"
  using assms
  by (simp add: tail_cmds_def addFilter_def removeFilter_def removeQdisc_def removeClass_def)

text \<open>
  Claim C2. A call of \<open>updateClient\<close> on an existing client \<open>c\<close> returns (for every
  chain length but \<open>2^32 - 1\<close>, for which the loop does not end). The filter commands on
  the root qdisc are told by their parent handle, so the per-priority base qdiscs of the
  old and the new priority must not be the root qdisc; their handles start after the
  DSMARK handles, so this holds whenever the handle arithmetic does not wrap around. When the new priority differs from \<open>priority c\<close>, the commands on the root
  qdisc are exactly: the removal of the filter with prio \<open>id + 1\<close> if the old priority
  is below \<open>g_numPriorities\<close>, then the filter sending (dst, src) to
  \<open>rootHTBMinor pri\<close> with prio \<open>id + 1\<close> if the new priority is below
  \<open>g_numPriorities\<close>; and the entry, which stays unless the new priority is the
  removal sentinel, has \<open>prevSentBytes = 0\<close>. When the priority is unchanged there is no
  command on the root qdisc and \<open>prevSentBytes\<close> is what \<open>updateSentBytes\<close> left.
\<close>

theorem priority_change_rebinds_root_filter:
  assumes "g_clients s (dst, src) = Some c" "len < 4294967295"
    "HTBBaseHandle cfg (priority c) \<noteq> rootHTBHandle" "HTBBaseHandle cfg pri \<noteq> rootHTBHandle"
  shows "\<exists>s1 cmds. updateClient pf cfg rd dst src pri len rates bursts s = Some (s1, cmds)
     \<and> (pri \<noteq> priority c \<longrightarrow>
           filter root_filter_cmd cmds
             = (if priority c < g_numPriorities cfg then [FilterDel rootHTBHandle (id_c c + 1)] else [])
               @ (if pri < g_numPriorities cfg
                  then [FilterAdd rootHTBHandle (id_c c + 1) dst src (rootHTBMinor pri)] else [])
         \<and> (pri \<noteq> g_numPriorities cfg \<longrightarrow>
               map_option prevSentBytes (g_clients s1 (dst, src)) = Some 0))
     \<and> (pri = priority c \<longrightarrow>
           filter root_filter_cmd cmds = []
         \<and> (pri \<noteq> g_numPriorities cfg \<longrightarrow>
               map_option prevSentBytes (g_clients s1 (dst, src))
                 = Some (prevSentBytes (updateSentBytes pf cfg rd c))))"
  unfolding updateClient_existing [OF assms(1) not_max_word [OF assms(2)]]
  using assms(3,4) by (simp add: filter_root_level_cmds filter_root_tail_cmds)

theorem priority_change_rebinds_root_filter_witness:
  "(\<exists>s1 cmds. updateClient example_platform default_config example_readings_later 1 2 5 4
        example_rates example_bursts example_state = Some (s1, cmds)
     \<and> filter root_filter_cmd cmds = [FilterDel 1 1, FilterAdd 1 1 1 2 6]
     \<and> map_option prevSentBytes (g_clients s1 (1, 2)) = Some 0)
   \<and> (\<exists>s1 cmds. updateClient example_platform default_config example_readings_later 1 2 2 4
        example_rates example_bursts example_state = Some (s1, cmds)
     \<and> filter root_filter_cmd cmds = []
     \<and> map_option prevSentBytes (g_clients s1 (1, 2)) = Some 500000)"
proof -
  have h: "g_clients example_state (1, 2) = Some example_client" "(4::u32) < 4294967295"
    "HTBBaseHandle default_config (priority example_client) \<noteq> rootHTBHandle"
    "HTBBaseHandle default_config 5 \<noteq> rootHTBHandle"
    "HTBBaseHandle default_config 2 \<noteq> rootHTBHandle"
    by (simp_all add: example_state_def example_client_def handle_defs default_config_def)
  have p: "prevSentBytes (updateSentBytes example_platform default_config example_readings_later
             example_client) = 500000"
    by (simp add: updateSentBytes_def example_client_def example_readings_later_def Let_def)
  have a: "\<exists>s1 cmds. updateClient example_platform default_config example_readings_later 1 2 5 4
        example_rates example_bursts example_state = Some (s1, cmds)
     \<and> filter root_filter_cmd cmds = [FilterDel 1 1, FilterAdd 1 1 1 2 6]
     \<and> map_option prevSentBytes (g_clients s1 (1, 2)) = Some 0"
    using priority_change_rebinds_root_filter [OF h(1,2,3,4), of example_platform
        example_readings_later example_rates example_bursts]
    by (simp add: example_client_def default_config_def rootHTBHandle_def rootHTBMinor_def)
  have b: "\<exists>s1 cmds. updateClient example_platform default_config example_readings_later 1 2 2 4
        example_rates example_bursts example_state = Some (s1, cmds)
     \<and> filter root_filter_cmd cmds = []
     \<and> map_option prevSentBytes (g_clients s1 (1, 2)) = Some 500000"
    using priority_change_rebinds_root_filter [OF h(1,2,3,5), of example_platform
        example_readings_later example_rates example_bursts]
    by (simp add: p) (simp add: example_client_def default_config_def)
  from a b show ?thesis by blast
qed

section \<open>Removing a client\<close>

text \<open>
  Claim C3. \<open>RemoveClients\<close> with one item whose (dst, src) has an entry \<open>c\<close> of
  priority below \<open>g_numPriorities\<close> is the call of \<open>updateClient\<close> with priority
  \<open>g_numPriorities\<close> and an empty chain. It removes the root filter of the client, then
  the qdisc \<open>HTBHandle id p 0\<close> below class \<open>id + 2\<close> of \<open>HTBBaseHandle p\<close> when the
  chain was longer than 2, then the per-priority filter and the level-0 class on
  \<open>HTBBaseHandle p\<close> when the chain was not empty, and erases the entry.
\<close>

theorem remove_client_tears_down:
  assumes "g_clients s (s_dstAddr cl, s_srcAddr cl) = Some c" "priority c < g_numPriorities cfg"
  shows "net_enforcer_remove_clients_svc pf cfg [(rd, cl)] s
       = updateClient pf cfg rd (s_dstAddr cl) (s_srcAddr cl) (g_numPriorities cfg) 0
           NULL_array NULL_array s
    \<and> net_enforcer_remove_clients_svc pf cfg [(rd, cl)] s
       = Some (\<lparr>g_clients = (g_clients s)((s_dstAddr cl, s_srcAddr cl) := None),
                g_nextId = g_nextId s\<rparr>,
               [removeFilter rootHTBHandle (id_c c)]
               @ (if 2 < rateLimitLength c
                  then [removeQdisc (HTBBaseHandle cfg (priority c)) (HTBMinor (id_c c) 0)
                          (HTBHandle cfg (id_c c) (priority c) 0)]
                  else [])
               @ (if 0 < rateLimitLength c
                  then [removeFilter (HTBBaseHandle cfg (priority c)) (id_c c),
                        removeClass (HTBBaseHandle cfg (priority c)) (HTBMinor (id_c c) 0)]
                  else []))"
proof -
  have z: "unat (0::u32) < 2 ^ 32 - 1" by simp
  have n: "num_levels 0 = 0" by (simp add: num_levels_def)
  have ne: "priority c \<noteq> g_numPriorities cfg" using assms(2) by auto
  have u: "updateClient pf cfg rd (s_dstAddr cl) (s_srcAddr cl) (g_numPriorities cfg) 0
           NULL_array NULL_array s
       = Some (\<lparr>g_clients = (g_clients s)((s_dstAddr cl, s_srcAddr cl) := None),
                g_nextId = g_nextId s\<rparr>,
               [removeFilter rootHTBHandle (id_c c)]
               @ (if 2 < rateLimitLength c
                  then [removeQdisc (HTBBaseHandle cfg (priority c)) (HTBMinor (id_c c) 0)
                          (HTBHandle cfg (id_c c) (priority c) 0)]
                  else [])
               @ (if 0 < rateLimitLength c
                  then [removeFilter (HTBBaseHandle cfg (priority c)) (id_c c),
                        removeClass (HTBBaseHandle cfg (priority c)) (HTBMinor (id_c c) 0)]
                  else []))"
    unfolding updateClient_existing [OF assms(1) z] n
    using assms(2) ne by (simp add: tail_cmds_def)
  show ?thesis by (simp add: u)
qed

theorem remove_client_tears_down_witness:
  "net_enforcer_remove_clients_svc example_platform default_config
      [(example_readings_later, \<lparr>s_dstAddr = 1, s_srcAddr = 2\<rparr>)] example_state
     = Some (\<lparr>g_clients = Map.empty, g_nextId = 1\<rparr>,
             [FilterDel 1 1, QdiscDel 25 2 40, FilterDel 25 1, ClassDel 25 2])"
proof -
  have h: "g_clients example_state (s_dstAddr \<lparr>s_dstAddr = 1, s_srcAddr = 2\<rparr>,
             s_srcAddr \<lparr>s_dstAddr = 1, s_srcAddr = 2\<rparr>) = Some example_client"
    "priority example_client < g_numPriorities default_config"
    by (simp_all add: example_state_def example_client_def default_config_def)
  show ?thesis
    using remove_client_tears_down [OF h, of example_platform example_readings_later,
        THEN conjunct2]
    by (simp add: example_state_def example_client_def default_config_def handle_defs driver_defs
        del: net_enforcer_remove_clients_svc.simps)
qed

section \<open>New clients and the removal sentinel\<close>

text \<open>
  Claim C9. For a (dst, src) without an entry in the table, \<open>updateClient\<close> with priority
  \<open>g_numPriorities\<close> returns at once: no command is run, and the table and the id
  counter are the ones before the call.
\<close>

theorem updateClient_new_sentinel_noop:
  assumes "g_clients s (dst, src) = None"
  shows "updateClient pf cfg rd dst src (g_numPriorities cfg) len rates bursts s = Some (s, [])"
  using assms by (simp add: updateClient_def)

theorem updateClient_new_sentinel_noop_witness:
  "updateClient example_platform default_config example_readings 1 2
     (g_numPriorities default_config) 0 NULL_array NULL_array init_state = Some (init_state, [])"
proof -
  have h: "g_clients init_state (1, 2) = None" by (simp add: init_state_def)
  show ?thesis using updateClient_new_sentinel_noop [OF h] .
qed

section \<open>Occupancy queries\<close>

text \<open>
  Claim C8 says that \<open>getOccupancy\<close> for a (dst, src) without an entry leaves the table
  unchanged. The code returns 0 and leaves the id counter alone, but \<^verbatim>\<open>g_clients[addr]\<close>
  has inserted a value-initialised entry (id 0, priority 0) by then: on the empty table
  the query for (1, 2) leaves an entry for (1, 2) behind.
\<close>

theorem getOccupancy_unknown_inserts_entry:
  "g_clients init_state (1, 2) = None
   \<and> getOccupancy example_platform default_config example_readings 1 2 init_state
       = (Finite 0, \<lparr>g_clients = [(1, 2) \<mapsto> zero_Client], g_nextId = 0\<rparr>)
   \<and> g_clients (snd (getOccupancy example_platform default_config example_readings 1 2 init_state)) (1, 2)
       = Some zero_Client"
  by (simp add: getOccupancy_def init_state_def zero_Client_def Let_def)

text \<open>
  Claim C5 says that two entries of the table never share an id. After one update that
  creates the client (1, 2), with id 0, an occupancy query for the unknown (3, 4) inserts
  an entry whose id is 0 as well, and the id counter stays at 1.
\<close>

theorem getOccupancy_duplicates_id:
  "case net_enforcer_update_clients_svc example_platform default_config
          [(example_readings, example_update 1 0)] init_state
   of None \<Rightarrow> False
    | Some (s1, cmds) \<Rightarrow>
        (case net_enforcer_get_occupancy_svc example_platform default_config example_readings
                \<lparr>s_dstAddr = 3, s_srcAddr = 4\<rparr> s1
         of (occ, s2) \<Rightarrow>
              map_option id_c (g_clients s2 (1, 2)) = Some 0
            \<and> map_option id_c (g_clients s2 (3, 4)) = Some 0
            \<and> g_nextId s2 = 1)"
  by (simp add: updateClient_def chainWalk.simps Let_def net_enforcer_get_occupancy_svc_def
      getOccupancy_def handle_defs driver_defs example_defs word_le_nat_alt)

text \<open>
  Claim C7 says that the occupancy returned is always within 0 and 1. For a client of
  priority 1 without rate limits \<open>updateSentBytes\<close> does nothing, so the query divides
  0 by 0: the result is NaN, which the test \<^verbatim>\<open>occupancy > 1\<close> lets through.
\<close>

theorem getOccupancy_unlimited_client_NaN:
  "case net_enforcer_update_clients_svc example_platform default_config
          [(example_readings, example_update 1 0)] init_state
   of None \<Rightarrow> False
    | Some (s1, cmds) \<Rightarrow>
        fst (net_enforcer_get_occupancy_svc example_platform default_config example_readings
               \<lparr>s_dstAddr = 1, s_srcAddr = 2\<rparr> s1) = NaN"
  by (simp add: updateClient_def chainWalk.simps Let_def net_enforcer_get_occupancy_svc_def
      getOccupancy_def updateSentBytes_def double_of_u64_def
      handle_defs driver_defs example_defs word_le_nat_alt)

section \<open>Chain lengths reachable through the RPC surface\<close>

text \<open>
  Claim C6 as stated, with every stored \<open>rateLimitLength\<close> even, fails: the handler
  checks the priority and the upper bound only, and the walk gives the last level of an
  odd chain \<open>ceil = rate\<close>. An update with three rate limits is applied and stored.
\<close>

theorem odd_rateLimitLength_stored:
  "reachable example_platform default_config init_state
   \<and> (case net_enforcer_update_clients_svc example_platform default_config
          [(example_readings, example_update 1 3)] init_state
      of None \<Rightarrow> False
       | Some (s1, cmds) \<Rightarrow>
           map_option rateLimitLength (g_clients s1 (1, 2)) = Some 3
         \<and> cmds = [ClassReplaceHTB 24 2 1000 1001 100 101, QdiscAddHTB 24 2 35,
                    ClassReplaceHTB 35 1 1002 1002 102 102, FilterAdd 24 1 1 2 2,
                    FilterAdd 1 1 1 2 2])
   \<and> odd (unat (3::u32))"
proof -
  have "case net_enforcer_update_clients_svc example_platform default_config
          [(example_readings, example_update 1 3)] init_state
      of None \<Rightarrow> False
       | Some (s1, cmds) \<Rightarrow>
           map_option rateLimitLength (g_clients s1 (1, 2)) = Some 3
         \<and> cmds = [ClassReplaceHTB 24 2 1000 1001 100 101, QdiscAddHTB 24 2 35,
                    ClassReplaceHTB 35 1 1002 1002 102 102, FilterAdd 24 1 1 2 2,
                    FilterAdd 1 1 1 2 2]"
    by (simp add: updateClient_def chainWalk.simps Let_def
        handle_defs driver_defs example_defs word_le_nat_alt)
  then show ?thesis using reach_init by simp
qed

lemma bound_not_max:
  assumes "len \<le> (n + 1) * (2 :: u32)"
  shows "unat len < 2 ^ 32 - 1"
proof -
  let ?b = "(n + 1) * (2 :: u32)"
  have "unat ?b = unat (n + 1) * unat (2 :: u32) mod 2 ^ LENGTH(32)"
    by (rule unat_word_ariths(2))
  then have "unat ?b = (unat (n + 1) * 2) mod 2 ^ 32" by simp
  moreover have "even ((unat (n + 1) * 2) mod (2 ^ 32 :: nat))"
  proof -
    have "(2::nat) dvd 2 ^ 32" by simp
    then have "even ((unat (n + 1) * 2) mod (2 ^ 32 :: nat)) \<longleftrightarrow> even (unat (n + 1) * 2)"
      by (rule dvd_mod_iff)
    then show ?thesis by simp
  qed
  ultimately have e: "even (unat ?b)" by (simp only:)
  have "unat ?b < 2 ^ 32 - 1" using even_not_max [OF e] .
  moreover have "unat len \<le> unat ?b" using assms by (simp add: word_le_nat_alt)
  ultimately show ?thesis by simp
qed

lemma lengths_bounded_upd:
  "lengths_bounded cfg s \<Longrightarrow> g_clients s1 = (g_clients s)(k \<mapsto> c1)
     \<Longrightarrow> rateLimitLength c1 \<le> (g_numLevels cfg + 1) * 2 \<Longrightarrow> lengths_bounded cfg s1"
  unfolding lengths_bounded_def by (metis fun_upd_apply option.inject)

lemma lengths_bounded_del:
  "lengths_bounded cfg s \<Longrightarrow> g_clients s1 = (g_clients s)(k := None) \<Longrightarrow> lengths_bounded cfg s1"
  unfolding lengths_bounded_def by (metis fun_upd_apply option.distinct(1))

lemma updateClient_bounded:
  assumes "lengths_bounded cfg s" "len \<le> (g_numLevels cfg + 1) * 2"
    "updateClient pf cfg rd dst src pri len rates bursts s = Some (s1, cmds)"
  shows "lengths_bounded cfg s1"
proof -
  note nm = bound_not_max [OF assms(2)]
  show ?thesis
  proof (cases "g_clients s (dst, src)")
    case None
    show ?thesis
    proof (cases "pri = g_numPriorities cfg")
      case True
      with None assms(3) have "s1 = s" by (simp add: updateClient_def)
      with assms(1) show ?thesis by simp
    next
      case False
      from assms(3) have "g_clients s1 = (g_clients s)((dst, src) \<mapsto>
               \<lparr>id_c = g_nextId s, priority = pri, rateLimitLength = len,
                rate = (if 0 < len then rates 0 else double_of_u32 (g_maxRate cfg)),
                lastSentBytesTime = GetTime rd, maxSentBytes = Finite 0, prevSentBytes = 0,
                sentBytes = 0\<rparr>)"
        unfolding updateClient_new [OF None False nm] by auto
      from lengths_bounded_upd [OF assms(1) this] assms(2) show ?thesis by simp
    qed
  next
    case (Some c0)
    let ?c1 = "if priority c0 \<noteq> pri
               then (updateSentBytes pf cfg rd c0)
                      \<lparr>priority := pri, rateLimitLength := len,
                       rate := (if 0 < len then rates 0 else double_of_u32 (g_maxRate cfg)),
                       prevSentBytes := 0\<rparr>
               else (updateSentBytes pf cfg rd c0)
                      \<lparr>priority := pri, rateLimitLength := len,
                       rate := (if 0 < len then rates 0 else double_of_u32 (g_maxRate cfg))\<rparr>"
    have l: "rateLimitLength ?c1 \<le> (g_numLevels cfg + 1) * 2" using assms(2) by simp
    show ?thesis
    proof (cases "pri = g_numPriorities cfg")
      case True
      from assms(3) have "g_clients s1 = (g_clients s)((dst, src) := None)"
        unfolding updateClient_existing [OF Some nm] using True by auto
      from lengths_bounded_del [OF assms(1) this] show ?thesis .
    next
      case False
      from assms(3) have "g_clients s1 = (g_clients s)((dst, src) \<mapsto> ?c1)"
        unfolding updateClient_existing [OF Some nm] using False by auto
      from lengths_bounded_upd [OF assms(1) this l] show ?thesis .
    qed
  qed
qed

lemma getOccupancy_bounded:
  assumes "lengths_bounded cfg s" "getOccupancy pf cfg rd dst src s = (occ, s1)"
  shows "lengths_bounded cfg s1"
proof -
  from assms(2) have "\<exists>c1. g_clients s1 = (g_clients s)((dst, src) \<mapsto> c1)
      \<and> (g_clients s (dst, src) = None \<and> rateLimitLength c1 = 0
          \<or> (\<exists>c0. g_clients s (dst, src) = Some c0 \<and> rateLimitLength c1 = rateLimitLength c0))"
    by (auto simp: getOccupancy_def Let_def updateSentBytes_keeps zero_Client_def
        split: option.splits if_splits)
  then obtain c1 where g: "g_clients s1 = (g_clients s)((dst, src) \<mapsto> c1)"
    and l: "g_clients s (dst, src) = None \<and> rateLimitLength c1 = 0
          \<or> (\<exists>c0. g_clients s (dst, src) = Some c0 \<and> rateLimitLength c1 = rateLimitLength c0)"
    by blast
  have "rateLimitLength c1 \<le> (g_numLevels cfg + 1) * 2"
    using l assms(1) unfolding lengths_bounded_def by (metis word_zero_le)
  from lengths_bounded_upd [OF assms(1) g this] show ?thesis .
qed

lemma update_svc_bounded:
  "lengths_bounded cfg s \<Longrightarrow> net_enforcer_update_clients_svc pf cfg argp s = Some (s1, cmds)
     \<Longrightarrow> lengths_bounded cfg s1"
proof (induction argp arbitrary: s cmds)
  case Nil
  then show ?case by simp
next
  case (Cons a argp)
  obtain rd u where a: "a = (rd, u)" by (cases a)
  show ?case
  proof (cases "g_numPriorities cfg \<le> priority_u u \<or> (g_numLevels cfg + 1) * 2 < rateLimitRates_len u")
    case True
    with Cons.prems(2) have "net_enforcer_update_clients_svc pf cfg argp s = Some (s1, cmds)"
      unfolding a net_enforcer_update_clients_svc.simps Let_def by (auto split: if_splits)
    from Cons.IH [OF Cons.prems(1) this] show ?thesis .
  next
    case False
    then have le: "rateLimitRates_len u \<le> (g_numLevels cfg + 1) * 2" by (simp add: not_less)
    from Cons.prems(2) False obtain s2 cmds2 cmds3 where
      u: "updateClient pf cfg rd (s_dstAddr (client u)) (s_srcAddr (client u)) (priority_u u)
            (rateLimitRates_len u) (rateLimitRates_val u) (rateLimitBursts_val u) s = Some (s2, cmds2)"
      and r: "net_enforcer_update_clients_svc pf cfg argp s2 = Some (s1, cmds3)"
      unfolding a net_enforcer_update_clients_svc.simps Let_def
      by (auto split: option.splits if_splits)
    from Cons.IH [OF updateClient_bounded [OF Cons.prems(1) le u] r] show ?thesis .
  qed
qed

lemma remove_svc_bounded:
  "lengths_bounded cfg s \<Longrightarrow> net_enforcer_remove_clients_svc pf cfg argp s = Some (s1, cmds)
     \<Longrightarrow> lengths_bounded cfg s1"
proof (induction argp arbitrary: s cmds)
  case Nil
  then show ?case by simp
next
  case (Cons a argp)
  obtain rd cl where a: "a = (rd, cl)" by (cases a)
  have le: "(0::u32) \<le> (g_numLevels cfg + 1) * 2" by simp
  from Cons.prems(2) obtain s2 cmds2 cmds3 where
    u: "updateClient pf cfg rd (s_dstAddr cl) (s_srcAddr cl) (g_numPriorities cfg) 0
          NULL_array NULL_array s = Some (s2, cmds2)"
    and r: "net_enforcer_remove_clients_svc pf cfg argp s2 = Some (s1, cmds3)"
    by (auto simp: a split: option.splits)
  from Cons.IH [OF updateClient_bounded [OF Cons.prems(1) le u] r] show ?case .
qed

lemma reachable_bounded: "reachable pf cfg s \<Longrightarrow> lengths_bounded cfg s"
proof (induction rule: reachable.induct)
  case reach_init
  show ?case by (simp add: lengths_bounded_def init_state_def)
next
  case (reach_update s upds s1 cmds)
  then show ?case using update_svc_bounded by blast
next
  case (reach_remove s rems s1 cmds)
  then show ?case using remove_svc_bounded by blast
next
  case (reach_occupancy s rd arg occ s1)
  then show ?case
    using getOccupancy_bounded by (auto simp: net_enforcer_get_occupancy_svc_def)
qed

text \<open>
  Claim C6, amended. In every state reachable through the three RPC handlers from the
  empty table, the \<open>rateLimitLength\<close> of every client is at most
  \<open>(g_numLevels + 1) * 2\<close>; and the update handler skips an item whose priority is not
  below \<open>g_numPriorities\<close> or whose rate-limit list is longer than that bound: the
  batch goes on with the next item from the same state.
\<close>

theorem reachable_rateLimitLength_bounded:
  "(reachable pf cfg s \<longrightarrow> g_clients s k = Some c \<longrightarrow>
      rateLimitLength c \<le> (g_numLevels cfg + 1) * 2)
   \<and> (g_numPriorities cfg \<le> priority_u u \<or> (g_numLevels cfg + 1) * 2 < rateLimitRates_len u \<longrightarrow>
        net_enforcer_update_clients_svc pf cfg ((rd, u) # argp) s0
          = net_enforcer_update_clients_svc pf cfg argp s0)"
proof -
  have "reachable pf cfg s \<longrightarrow> g_clients s k = Some c \<longrightarrow>
      rateLimitLength c \<le> (g_numLevels cfg + 1) * 2"
    using reachable_bounded [of pf cfg s] unfolding lengths_bounded_def by blast
  moreover have "g_numPriorities cfg \<le> priority_u u \<or> (g_numLevels cfg + 1) * 2 < rateLimitRates_len u \<longrightarrow>
        net_enforcer_update_clients_svc pf cfg ((rd, u) # argp) s0
          = net_enforcer_update_clients_svc pf cfg argp s0"
    unfolding net_enforcer_update_clients_svc.simps Let_def by auto
  ultimately show ?thesis by blast
qed

theorem reachable_rateLimitLength_bounded_witness:
  "reachable example_platform default_config
     \<lparr>g_clients = [(1, 2) \<mapsto> \<lparr>id_c = 0, priority = 1, rateLimitLength = 3, rate = Finite 1000,
                     lastSentBytesTime = 1000, maxSentBytes = Finite 0, prevSentBytes = 0,
                     sentBytes = 0\<rparr>], g_nextId = 1\<rparr>
   \<and> (3::u32) \<le> (g_numLevels default_config + 1) * 2
   \<and> net_enforcer_update_clients_svc example_platform default_config
         [(example_readings, example_update 7 2)] init_state = Some (init_state, [])"
proof -
  let ?c = "\<lparr>id_c = 0, priority = 1, rateLimitLength = 3, rate = Finite 1000,
             lastSentBytesTime = 1000, maxSentBytes = Finite 0, prevSentBytes = 0,
             sentBytes = 0\<rparr> :: Client"
  let ?s = "\<lparr>g_clients = [(1, 2) \<mapsto> ?c], g_nextId = 1\<rparr>"
  have ev: "net_enforcer_update_clients_svc example_platform default_config
          [(example_readings, example_update 1 3)] init_state
      = Some (?s, [ClassReplaceHTB 24 2 1000 1001 100 101, QdiscAddHTB 24 2 35,
                   ClassReplaceHTB 35 1 1002 1002 102 102, FilterAdd 24 1 1 2 2,
                   FilterAdd 1 1 1 2 2])"
    by (simp add: updateClient_def chainWalk.simps Let_def
        handle_defs driver_defs example_defs word_le_nat_alt)
  have r: "reachable example_platform default_config ?s"
    by (rule reach_update [OF reach_init ev])
  have g: "g_clients ?s (1, 2) = Some ?c" by simp
  have i: "g_numPriorities default_config \<le> priority_u (example_update 7 2)"
    by (simp add: example_update_def default_config_def)
  have e: "net_enforcer_update_clients_svc example_platform default_config [] init_state
      = Some (init_state, [])" by simp
  from reachable_rateLimitLength_bounded [of example_platform default_config ?s "(1, 2)" ?c
      "example_update 7 2" example_readings "[]" init_state] r g i e
  show ?thesis
    by (simp del: net_enforcer_update_clients_svc.simps)
qed

end
